theory Spec2Isabelle
  imports Complex_Main "HOL-Library.AList" "HOL-Library.List_Lexorder" "HOL-Library.Product_Lexorder"
begin

section \<open>Python values\<close>

text \<open>
  A Python \<open>str\<close> is a sequence of Unicode code points; it is modelled as a list of
  natural numbers. Python compares strings code point by code point, which is the
  lexicographic order on these lists. \<open>ascii\<close> embeds an ASCII literal of the source.
\<close>

type_synonym ustr = "nat list"

definition ascii :: "string \<Rightarrow> ustr" where
  "ascii s = map of_char s"

text \<open>
  The values that \<open>json.loads\<close> produces, which are also the values \<open>norm_str\<close> is
  applied to: \<open>None\<close>, booleans, integers, finite floats (as the rational they denote),
  strings, lists, and dictionaries (the keys with their values, in insertion order; a
  key is looked up at its first occurrence).
\<close>

datatype json =
    JNull
  | JBool bool
  | JInt int
  | JFloat rat
  | JStr ustr
  | JArr "json list"
  | JObj "(ustr \<times> json) list"

text \<open>
  The exceptions the functions raise. \<open>KeyError\<close> carries the names the message lists.
  \<open>Unsupported\<close> is not a Python exception: it marks an input that this model does not
  follow (see \<open>str_fragment\<close> and \<open>compute_matching_diagnostics\<close>).
\<close>

datatype error =
    AttributeError
  | IndexError
  | KeyError "string list"
  | TypeError
  | ValueError
  | FileNotFoundError
  | ParserError
  | Unsupported

section \<open>Tables\<close>

text \<open>
  A cell of a column as \<open>pd.read_csv\<close> delivers it: missing (\<open>NaN\<close>), a number, or text.
  A \<open>DataFrame\<close> is its column names and its rows. Of a row, the model keeps the five
  columns that \<open>utils.py\<close> reads; a field whose column is absent from \<open>columns\<close> is
  never read. \<open>csv_row\<close> is a row before, \<open>row\<close> a row after the numeric coercion of
  \<open>load_data\<close>: \<open>None\<close> is \<open>NaN\<close> (or \<open><NA>\<close> in the \<open>Int64\<close> column).
  A finite float is the rational number it denotes; infinities are not modelled.
\<close>

datatype cell = NaN | Num rat | Text ustr

record csv_row =
  csv_nom_region :: "ustr option"
  csv_nom_region_norm :: "ustr option"
  csv_annee :: cell
  csv_nombre :: cell
  csv_insee_pop :: cell

record row =
  nom_region :: "ustr option"
  nom_region_norm :: "ustr option"
  annee :: "int option"
  nombre :: "rat option"
  insee_pop :: "rat option"

record 'r dataframe =
  columns :: "string list"
  rows :: "'r list"

text \<open>
  The dtypes of its columns are part of a \<open>DataFrame\<close>. \<open>load_data\<close> is modelled up to
  them. \<open>build_region_metrics\<close> depends on the dtypes of the two measure columns: a column
  of dtype \<open>int64\<close> holds integers, none of them missing, and is summed modulo \<open>2 ** 64\<close>;
  any other measure column is a \<open>float64\<close> column (the dtype that \<open>pd.to_numeric\<close> gives a
  column with a missing or a fractional value). \<open>int64_columns\<close> names the columns of dtype
  \<open>int64\<close>.
\<close>

record 'r typed_dataframe = "'r dataframe" +
  int64_columns :: "string list"

text \<open>A row of the table \<open>g\<close> that \<open>build_region_metrics\<close> returns.\<close>

record metric =
  g_nom_region :: ustr
  g_nom_region_norm :: ustr
  g_annee :: int
  nb_region :: rat
  pop_region :: "rat option"
  taux_region_pour_mille :: "rat option"
  variation_region :: rat

text \<open>The dictionary that \<open>compute_matching_diagnostics\<close> returns.\<close>

record diagnostics =
  n_regions_data :: nat
  n_regions_geo :: nat
  missing_in_geo :: "ustr list"
  missing_in_data :: "ustr list"

section \<open>The library\<close>

text \<open>
  The parts of the Python library that \<open>utils.py\<close> calls and whose tables are not part of
  the repository: \<open>str.lower\<close>, \<open>unicodedata.normalize("NFD", _)\<close>, the test
  \<open>unicodedata.category(ch) == "Mn"\<close>, \<open>str()\<close> of a value that is not a string (the
  text, or the exception that \<open>str()\<close> raises), and the number that \<open>pd.to_numeric\<close> reads
  from a text cell (\<open>None\<close> when it reads none); and the arithmetic of \<open>float64\<close> numbers:
  \<open>float64\<close> rounds the exact result of an operation to the nearest float (IEEE 754
  operations are the exact operations followed by this rounding), \<open>float_sum\<close> is the sum
  that the \<open>sum\<close> aggregation of pandas computes for the non-missing values of a \<open>float64\<close>
  group. Every definition below takes them as a parameter.
\<close>

record pylib =
  str_lower :: "ustr \<Rightarrow> ustr"
  nfd :: "ustr \<Rightarrow> ustr"
  category_Mn :: "nat \<Rightarrow> bool"
  py_str :: "json \<Rightarrow> error + ustr"
  to_number :: "ustr \<Rightarrow> rat option"
  float64 :: "rat \<Rightarrow> rat"
  float_sum :: "rat list \<Rightarrow> rat"

subsection \<open>Whitespace: \<open>str.strip()\<close>, \<open>str.split()\<close>, \<open>" ".join\<close>\<close>

text \<open>The code points for which \<open>str.isspace\<close> holds (CPython's whitespace table).\<close>

definition isspace :: "nat \<Rightarrow> bool" where
  "isspace c \<longleftrightarrow>
     (0x09 \<le> c \<and> c \<le> 0x0D) \<or> (0x1C \<le> c \<and> c \<le> 0x20) \<or> c = 0x85 \<or> c = 0xA0 \<or>
     c = 0x1680 \<or> (0x2000 \<le> c \<and> c \<le> 0x200A) \<or> c = 0x2028 \<or> c = 0x2029 \<or>
     c = 0x202F \<or> c = 0x205F \<or> c = 0x3000"

definition strip :: "ustr \<Rightarrow> ustr" where
  "strip s = rev (dropWhile isspace (rev (dropWhile isspace s)))"

text \<open>
  \<open>s.split()\<close> scans the string once; \<open>cur\<close> is the word being read. Runs of whitespace
  separate words and produce no empty word.
\<close>

fun split_from :: "ustr \<Rightarrow> ustr \<Rightarrow> ustr list" where
  "split_from cur [] = (if cur = [] then [] else [cur])"
| "split_from cur (c # cs) =
     (if isspace c then (if cur = [] then split_from [] cs else cur # split_from [] cs)
      else split_from (cur @ [c]) cs)"

definition split :: "ustr \<Rightarrow> ustr list" where
  "split s = split_from [] s"

fun join_space :: "ustr list \<Rightarrow> ustr" where
  "join_space [] = []"
| "join_space [w] = w"
| "join_space (w # v # ws) = w @ 0x20 # join_space (v # ws)"

subsection \<open>\<open>norm_str\<close>\<close>

text \<open>
  \<^verbatim>\<open>
  def norm_str(s):
      if s is None: return ""
      s = str(s).strip().lower()
      s = unicodedata.normalize("NFD", s)
      s = "".join(ch for ch in s if unicodedata.category(ch) != "Mn")
      s = " ".join(s.split())
      return s
  \<close>
  The result is the string returned or the exception raised. \<open>str(s)\<close> of a string is the
  string itself; of another value it is what the library gives, and it can raise. The
  methods and functions applied to the text afterwards do not raise.
\<close>

definition to_str :: "pylib \<Rightarrow> json \<Rightarrow> error + ustr" where
  "to_str L v = (case v of JStr s \<Rightarrow> Inr s | _ \<Rightarrow> py_str L v)"

definition norm_str :: "pylib \<Rightarrow> json \<Rightarrow> error + ustr" where
  "norm_str L s =
     (if s = JNull then Inr []
      else
        case to_str L s of
          Inl e \<Rightarrow> Inl e
        | Inr s0 \<Rightarrow>
            let s1 = str_lower L (strip s0);
                s2 = nfd L s1;
                s3 = filter (\<lambda>ch. \<not> category_Mn L ch) s2
            in Inr (join_space (split s3)))"

subsection \<open>The library on a fragment of Unicode\<close>

text \<open>
  For evaluating \<open>norm_str\<close> on concrete strings, \<open>cpython_fragment\<close> gives the library
  functions their CPython 3.11 (Unicode 14) values on the strings over ASCII, the
  Latin-1 Supplement, the combining marks of its decompositions (U+0300, U+0301, U+0302,
  U+0303, U+0308, U+030A, U+0327), U+0941 (DEVANAGARI VOWEL SIGN U), U+1D165 (MUSICAL
  SYMBOL COMBINING STEM) and U+1D16D (MUSICAL SYMBOL COMBINING AUGMENTATION DOT), \<open>str()\<close>
  its value on \<open>None\<close>, booleans and integers, \<open>pd.to_numeric\<close> its value on texts of
  decimal digits, and the \<open>float64\<close> operations their values as long as the results are
  finite. It is used only at inputs of this fragment.
\<close>

definition lower_cp :: "nat \<Rightarrow> nat" where
  "lower_cp c =
     (if (0x41 \<le> c \<and> c \<le> 0x5A) \<or> (0xC0 \<le> c \<and> c \<le> 0xDE \<and> c \<noteq> 0xD7) then c + 0x20 else c)"

definition decomposition_table :: "(nat \<times> ustr) list" where
  "decomposition_table =
  [(0xC0, [0x41, 0x300]), (0xC1, [0x41, 0x301]), (0xC2, [0x41, 0x302]), (0xC3, [0x41, 0x303]),
   (0xC4, [0x41, 0x308]), (0xC5, [0x41, 0x30A]), (0xC7, [0x43, 0x327]), (0xC8, [0x45, 0x300]),
   (0xC9, [0x45, 0x301]), (0xCA, [0x45, 0x302]), (0xCB, [0x45, 0x308]), (0xCC, [0x49, 0x300]),
   (0xCD, [0x49, 0x301]), (0xCE, [0x49, 0x302]), (0xCF, [0x49, 0x308]), (0xD1, [0x4E, 0x303]),
   (0xD2, [0x4F, 0x300]), (0xD3, [0x4F, 0x301]), (0xD4, [0x4F, 0x302]), (0xD5, [0x4F, 0x303]),
   (0xD6, [0x4F, 0x308]), (0xD9, [0x55, 0x300]), (0xDA, [0x55, 0x301]), (0xDB, [0x55, 0x302]),
   (0xDC, [0x55, 0x308]), (0xDD, [0x59, 0x301]), (0xE0, [0x61, 0x300]), (0xE1, [0x61, 0x301]),
   (0xE2, [0x61, 0x302]), (0xE3, [0x61, 0x303]), (0xE4, [0x61, 0x308]), (0xE5, [0x61, 0x30A]),
   (0xE7, [0x63, 0x327]), (0xE8, [0x65, 0x300]), (0xE9, [0x65, 0x301]), (0xEA, [0x65, 0x302]),
   (0xEB, [0x65, 0x308]), (0xEC, [0x69, 0x300]), (0xED, [0x69, 0x301]), (0xEE, [0x69, 0x302]),
   (0xEF, [0x69, 0x308]), (0xF1, [0x6E, 0x303]), (0xF2, [0x6F, 0x300]), (0xF3, [0x6F, 0x301]),
   (0xF4, [0x6F, 0x302]), (0xF5, [0x6F, 0x303]), (0xF6, [0x6F, 0x308]), (0xF9, [0x75, 0x300]),
   (0xFA, [0x75, 0x301]), (0xFB, [0x75, 0x302]), (0xFC, [0x75, 0x308]), (0xFD, [0x79, 0x301]),
   (0xFF, [0x79, 0x308])]"

definition decompose_cp :: "nat \<Rightarrow> ustr" where
  "decompose_cp c = (case map_of decomposition_table c of None \<Rightarrow> [c] | Some d \<Rightarrow> d)"

text \<open>Canonical combining classes of the marks of the fragment; every other code point of
  the fragment is a starter (class 0).\<close>

definition combining :: "nat \<Rightarrow> nat" where
  "combining c =
     (if c \<in> {0x300, 0x301, 0x302, 0x303, 0x308, 0x30A} then 230
      else if c = 0x327 then 202
      else if c = 0x1D165 then 216
      else if c = 0x1D16D then 226
      else 0)"

text \<open>Canonical ordering: a mark moves left past the marks of a greater class, and never
  past a starter. \<open>acc\<close> holds the text already ordered, last code point first.\<close>

fun insert_mark :: "nat \<Rightarrow> ustr \<Rightarrow> ustr" where
  "insert_mark c [] = [c]"
| "insert_mark c (a # acc) =
     (if combining c \<noteq> 0 \<and> combining c < combining a then a # insert_mark c acc
      else c # a # acc)"

fun canonical_order :: "ustr \<Rightarrow> ustr \<Rightarrow> ustr" where
  "canonical_order acc [] = rev acc"
| "canonical_order acc (c # cs) = canonical_order (insert_mark c acc) cs"

definition nfd_fragment :: "ustr \<Rightarrow> ustr" where
  "nfd_fragment s = canonical_order [] (concat (map decompose_cp s))"

text \<open>
  \<open>str()\<close> of an integer is its decimal text. Since CPython 3.11 the conversion raises
  \<open>ValueError\<close> for an integer of more than \<open>sys.get_int_max_str_digits()\<close> digits, 4300
  unless the interpreter is configured otherwise. The text of a float, a list or a
  dictionary is outside the fragment.
\<close>

fun digits :: "nat \<Rightarrow> ustr" where
  "digits n = (if n < 10 then [0x30 + n] else digits (n div 10) @ [0x30 + n mod 10])"

declare digits.simps [simp del]

definition int_max_str_digits :: nat where
  "int_max_str_digits = 4300"

definition str_fragment :: "json \<Rightarrow> error + ustr" where
  "str_fragment v =
     (case v of
        JNull \<Rightarrow> Inr (ascii ''None'')
      | JBool b \<Rightarrow> Inr (if b then ascii ''True'' else ascii ''False'')
      | JInt i \<Rightarrow>
          if 10 ^ int_max_str_digits \<le> \<bar>i\<bar> then Inl ValueError
          else Inr (if i < 0 then 0x2D # digits (nat (- i)) else digits (nat i))
      | JStr s \<Rightarrow> Inr s
      | _ \<Rightarrow> Inl Unsupported)"

fun digits_value :: "nat \<Rightarrow> ustr \<Rightarrow> nat option" where
  "digits_value acc [] = Some acc"
| "digits_value acc (c # cs) =
     (if 0x30 \<le> c \<and> c \<le> 0x39 then digits_value (10 * acc + (c - 0x30)) cs else None)"

definition number_fragment :: "ustr \<Rightarrow> rat option" where
  "number_fragment s = (if s = [] then None else map_option of_nat (digits_value 0 s))"

text \<open>
  Rounding to the nearest \<open>float64\<close>, ties to the even significand. A float is
  \<open>m * 2 ** e\<close> with \<open>|m| < 2 ** 53\<close> and \<open>e \<ge> -1074\<close>; \<open>binade x\<close> is the exponent of the
  greatest power of two that is at most \<open>x\<close>, for a positive \<open>x\<close>. A result of magnitude
  \<open>2 ** 1024\<close> or more, which the hardware turns into an infinity, is outside the fragment.
\<close>

fun bit_length :: "nat \<Rightarrow> nat" where
  "bit_length n = (if n = 0 then 0 else Suc (bit_length (n div 2)))"

declare bit_length.simps [simp del]

definition binade :: "rat \<Rightarrow> int" where
  "binade x =
     (if 1 \<le> x then int (bit_length (nat \<lfloor>x\<rfloor>)) - 1
      else let b = int (bit_length (nat \<lfloor>1 / x\<rfloor>))
           in if 1 \<le> x * 2 ^ nat (b - 1) then 1 - b else - b)"

definition scale2 :: "rat \<Rightarrow> int \<Rightarrow> rat" where
  "scale2 x e = (if 0 \<le> e then x * 2 ^ nat e else x / 2 ^ nat (- e))"

definition round_half_even :: "rat \<Rightarrow> int" where
  "round_half_even x =
     (let n = \<lfloor>x\<rfloor>; f = x - of_int n
      in if f < 1 / 2 then n else if 1 / 2 < f then n + 1 else if even n then n else n + 1)"

definition round_float64 :: "rat \<Rightarrow> rat" where
  "round_float64 q =
     (if q = 0 then 0
      else let e = max (binade \<bar>q\<bar> - 52) (- 1074)
           in scale2 (of_int (round_half_even (scale2 q (- e)))) e)"

text \<open>The \<open>sum\<close> aggregation of pandas adds the values of a group in table order with
  Kahan's compensation: \<open>s\<close> is the running sum and \<open>c\<close> the running compensation.\<close>

fun kahan_sum :: "rat \<Rightarrow> rat \<Rightarrow> rat list \<Rightarrow> rat" where
  "kahan_sum s c [] = s"
| "kahan_sum s c (v # vs) =
     (let y = round_float64 (v - c);
          t = round_float64 (s + y);
          c1 = round_float64 (round_float64 (t - s) - y)
      in kahan_sum t c1 vs)"

definition cpython_fragment :: pylib where
  "cpython_fragment =
     \<lparr> str_lower = map lower_cp,
       nfd = nfd_fragment,
       category_Mn = (\<lambda>c. (0x300 \<le> c \<and> c \<le> 0x36F) \<or> c = 0x941),
       py_str = str_fragment,
       to_number = number_fragment,
       float64 = round_float64,
       float_sum = kahan_sum 0 0 \<rparr>"

section \<open>GeoJSON\<close>

subsection \<open>Python operations on JSON values\<close>

text \<open>Truth value of a value (\<open>not features\<close>, \<open>x or {}\<close>, \<open>if r\<close>).\<close>

definition truthy :: "json \<Rightarrow> bool" where
  "truthy v =
     (case v of JNull \<Rightarrow> False | JBool b \<Rightarrow> b | JInt i \<Rightarrow> i \<noteq> 0 | JFloat r \<Rightarrow> r \<noteq> 0
      | JStr s \<Rightarrow> s \<noteq> [] | JArr xs \<Rightarrow> xs \<noteq> [] | JObj d \<Rightarrow> d \<noteq> [])"

text \<open>\<open>d.get(k, default)\<close> on a dictionary.\<close>

definition dict_get :: "(ustr \<times> json) list \<Rightarrow> ustr \<Rightarrow> json \<Rightarrow> json" where
  "dict_get d k dflt = (case map_of d k of None \<Rightarrow> dflt | Some v \<Rightarrow> v)"

text \<open>\<open>x[0]\<close>: the first element of a list, the first character of a string; a dictionary
  has no key \<open>0\<close>; other values are not subscriptable.\<close>

definition item0 :: "json \<Rightarrow> error + json" where
  "item0 v =
     (case v of
        JArr xs \<Rightarrow> (case xs of [] \<Rightarrow> Inl IndexError | x # _ \<Rightarrow> Inr x)
      | JStr s \<Rightarrow> (case s of [] \<Rightarrow> Inl IndexError | c # _ \<Rightarrow> Inr (JStr [c]))
      | JObj d \<Rightarrow> Inl (KeyError [''0''])
      | _ \<Rightarrow> Inl TypeError)"

fun is_substring :: "ustr \<Rightarrow> ustr \<Rightarrow> bool" where
  "is_substring k [] = (k = [])"
| "is_substring k (c # cs) = (take (length k) (c # cs) = k \<or> is_substring k cs)"

text \<open>\<open>k in x\<close> for a string \<open>k\<close>: a key of a dictionary, an element of a list, a substring
  of a string; other values are not iterable.\<close>

definition contains :: "json \<Rightarrow> ustr \<Rightarrow> error + bool" where
  "contains x k =
     (case x of
        JObj d \<Rightarrow> Inr (k \<in> set (map fst d))
      | JArr xs \<Rightarrow> Inr (JStr k \<in> set xs)
      | JStr s \<Rightarrow> Inr (is_substring k s)
      | _ \<Rightarrow> Inl TypeError)"

text \<open>\<open>for x in v\<close>: the elements of a list, the keys of a dictionary, the characters of a
  string; other values are not iterable.\<close>

definition iter_values :: "json \<Rightarrow> error + json list" where
  "iter_values v =
     (case v of
        JArr xs \<Rightarrow> Inr xs
      | JObj d \<Rightarrow> Inr (map (\<lambda>(k, _). JStr k) d)
      | JStr s \<Rightarrow> Inr (map (\<lambda>c. JStr [c]) s)
      | _ \<Rightarrow> Inl TypeError)"

subsection \<open>\<open>guess_geojson_region_key\<close>\<close>

text \<open>
  \<^verbatim>\<open>
  def guess_geojson_region_key(geojson):
      features = geojson.get("features", [])
      if not features: return "nom"
      props = features[0].get("properties", {}) or {}
      candidates = ["nom", "Nom", "NOM", "name", "Name", "NAME", "region", "REGION",
                    "libelle", "LIBELLE", "nom_region", "NOM_REGION"]
      for k in candidates:
          if k in props: return k
      for k, v in props.items():
          if isinstance(v, str) and v.strip(): return k
      return list(props.keys())[0] if props else "nom"
  \<close>
\<close>

definition candidates :: "ustr list" where
  "candidates = map ascii
     [''nom'', ''Nom'', ''NOM'', ''name'', ''Name'', ''NAME'', ''region'', ''REGION'',
      ''libelle'', ''LIBELLE'', ''nom_region'', ''NOM_REGION'']"

text \<open>The first loop: the first candidate found in \<open>props\<close>, if any.\<close>

fun first_candidate :: "json \<Rightarrow> ustr list \<Rightarrow> error + ustr option" where
  "first_candidate props [] = Inr None"
| "first_candidate props (k # ks) =
     (case contains props k of
        Inl e \<Rightarrow> Inl e
      | Inr found \<Rightarrow> if found then Inr (Some k) else first_candidate props ks)"

text \<open>The second loop: the first property whose value is a string that \<open>strip()\<close> leaves
  non-empty.\<close>

fun first_text_property :: "(ustr \<times> json) list \<Rightarrow> ustr option" where
  "first_text_property [] = None"
| "first_text_property ((k, v) # d) =
     (case v of
        JStr s \<Rightarrow> if strip s \<noteq> [] then Some k else first_text_property d
      | _ \<Rightarrow> first_text_property d)"

definition guess_geojson_region_key :: "json \<Rightarrow> error + ustr" where
  "guess_geojson_region_key geojson =
     (case geojson of
        JObj g \<Rightarrow>
          (let features = dict_get g (ascii ''features'') (JArr []) in
           if \<not> truthy features then Inr (ascii ''nom'')
           else
             (case item0 features of
                Inl e \<Rightarrow> Inl e
              | Inr feat \<Rightarrow>
                  (case feat of
                     JObj f \<Rightarrow>
                       (let p = dict_get f (ascii ''properties'') (JObj []);
                            props = (if truthy p then p else JObj [])
                        in case first_candidate props candidates of
                             Inl e \<Rightarrow> Inl e
                           | Inr (Some k) \<Rightarrow> Inr k
                           | Inr None \<Rightarrow>
                               (case props of
                                  JObj d \<Rightarrow>
                                    (case first_text_property d of
                                       Some k \<Rightarrow> Inr k
                                     | None \<Rightarrow>
                                         (case d of [] \<Rightarrow> Inr (ascii ''nom'')
                                          | (k, _) # _ \<Rightarrow> Inr k))
                                | _ \<Rightarrow> Inl AttributeError))
                   | _ \<Rightarrow> Inl AttributeError)))
      | _ \<Rightarrow> Inl AttributeError)"

text \<open>
  The rule as the specification words it, for comparison: the first candidate among the
  properties; else the first property whose value is a non-empty string; else the
  default name.
\<close>

definition spec_key_detection :: "(ustr \<times> json) list \<Rightarrow> ustr" where
  "spec_key_detection props =
     (case find (\<lambda>k. k \<in> set (map fst props)) candidates of
        Some k \<Rightarrow> k
      | None \<Rightarrow>
          (case find (\<lambda>(k, v). case v of JStr s \<Rightarrow> s \<noteq> [] | _ \<Rightarrow> False) props of
             Some (k, _) \<Rightarrow> k
           | None \<Rightarrow> ascii ''nom''))"

subsection \<open>\<open>geojson_with_norm_names\<close>, on values\<close>

text \<open>
  \<^verbatim>\<open>
  def geojson_with_norm_names(geojson):
      gj = json.loads(json.dumps(geojson))  # deep copy safe
      key = guess_geojson_region_key(gj)
      for feat in gj.get("features", []):
          props = feat.setdefault("properties", {})
          props["region_norm"] = norm_str(props.get(key, ""))
      return gj, key
  \<close>
  Here the function is a function from the value of \<open>geojson\<close> to the value of the
  returned \<open>gj\<close>; the copy has the value of the original. Section \<open>Objects\<close> below models
  the same lines on a store of mutable objects.
\<close>

text \<open>The body of the loop for one feature. \<open>setdefault\<close> appends a missing
  \<open>properties\<close> member; the assignment replaces the value of an existing key in place and
  appends a new key (\<open>AList.update\<close>). An exception of \<open>norm_str\<close> leaves the function.\<close>

definition annotate_feature :: "pylib \<Rightarrow> ustr \<Rightarrow> json \<Rightarrow> error + json" where
  "annotate_feature L key feat =
     (case feat of
        JObj f \<Rightarrow>
          (let f1 = (if ascii ''properties'' \<in> set (map fst f) then f
                     else f @ [(ascii ''properties'', JObj [])])
           in case dict_get f1 (ascii ''properties'') JNull of
                JObj d \<Rightarrow>
                  (case norm_str L (dict_get d key (JStr [])) of
                     Inl e \<Rightarrow> Inl e
                   | Inr t \<Rightarrow>
                       Inr (JObj (AList.update (ascii ''properties'')
                             (JObj (AList.update (ascii ''region_norm'') (JStr t) d)) f1)))
              | _ \<Rightarrow> Inl AttributeError)
      | _ \<Rightarrow> Inl AttributeError)"

fun annotate_features :: "pylib \<Rightarrow> ustr \<Rightarrow> json list \<Rightarrow> error + json list" where
  "annotate_features L key [] = Inr []"
| "annotate_features L key (feat # feats) =
     (case annotate_feature L key feat of
        Inl e \<Rightarrow> Inl e
      | Inr feat' \<Rightarrow>
          (case annotate_features L key feats of
             Inl e \<Rightarrow> Inl e
           | Inr feats' \<Rightarrow> Inr (feat' # feats')))"

definition geojson_with_norm_names :: "pylib \<Rightarrow> json \<Rightarrow> error + (json \<times> ustr)" where
  "geojson_with_norm_names L geojson =
     (let gj = geojson in
      case guess_geojson_region_key gj of
        Inl e \<Rightarrow> Inl e
      | Inr key \<Rightarrow>
          (case gj of
             JObj g \<Rightarrow>
               (let features = dict_get g (ascii ''features'') (JArr []) in
                case iter_values features of
                  Inl e \<Rightarrow> Inl e
                | Inr feats \<Rightarrow>
                    (case annotate_features L key feats of
                       Inl e \<Rightarrow> Inl e
                     | Inr feats' \<Rightarrow>
                         Inr (if map_of g (ascii ''features'') = Some (JArr feats)
                              then JObj (AList.update (ascii ''features'') (JArr feats') g)
                              else gj, key)))
           | _ \<Rightarrow> Inl AttributeError))"

section \<open>Objects\<close>

text \<open>
  Python dictionaries and lists are mutable objects that several names can share. To state
  what \<open>geojson_with_norm_names\<close> does to the structure it is given, this section models
  the store: an object lives at an address, a value is a scalar or a reference to an
  object, and allocation appends to the store.
\<close>

datatype val = VNull | VBool bool | VInt int | VFloat rat | VStr ustr | VRef nat

datatype obj = OList "val list" | ODict "(ustr \<times> val) list"

type_synonym store = "obj list"

text \<open>
  The JSON value that a value of the store denotes. The first argument bounds the nesting
  that is followed, as the interpreter's recursion limit does; a circular structure has
  no value at any bound (\<open>json.dumps\<close> raises on it).
\<close>

fun value_of :: "nat \<Rightarrow> store \<Rightarrow> val \<Rightarrow> json option" where
  "value_of n h VNull = Some JNull"
| "value_of n h (VBool b) = Some (JBool b)"
| "value_of n h (VInt i) = Some (JInt i)"
| "value_of n h (VFloat r) = Some (JFloat r)"
| "value_of n h (VStr s) = Some (JStr s)"
| "value_of 0 h (VRef a) = None"
| "value_of (Suc n) h (VRef a) =
     (if a < length h then
        (case h ! a of
           OList vs \<Rightarrow> map_option JArr (those (map (value_of n h) vs))
         | ODict d \<Rightarrow>
             map_option JObj (those (map (\<lambda>(k, v). map_option (Pair k) (value_of n h v)) d)))
      else None)"

text \<open>\<open>json.loads\<close> builds its result from new objects only.\<close>

fun json_loads :: "store \<Rightarrow> json \<Rightarrow> store \<times> val"
  and json_loads_list :: "store \<Rightarrow> json list \<Rightarrow> store \<times> val list"
  and json_loads_items :: "store \<Rightarrow> (ustr \<times> json) list \<Rightarrow> store \<times> (ustr \<times> val) list"
where
  "json_loads h JNull = (h, VNull)"
| "json_loads h (JBool b) = (h, VBool b)"
| "json_loads h (JInt i) = (h, VInt i)"
| "json_loads h (JFloat r) = (h, VFloat r)"
| "json_loads h (JStr s) = (h, VStr s)"
| "json_loads h (JArr js) =
     (case json_loads_list h js of (h1, vs) \<Rightarrow> (h1 @ [OList vs], VRef (length h1)))"
| "json_loads h (JObj d) =
     (case json_loads_items h d of (h1, e) \<Rightarrow> (h1 @ [ODict e], VRef (length h1)))"
| "json_loads_list h [] = (h, [])"
| "json_loads_list h (j # js) =
     (case json_loads h j of (h1, v) \<Rightarrow>
        (case json_loads_list h1 js of (h2, vs) \<Rightarrow> (h2, v # vs)))"
| "json_loads_items h [] = (h, [])"
| "json_loads_items h (kj # d) =
     (case json_loads h (snd kj) of (h1, v) \<Rightarrow>
        (case json_loads_items h1 d of (h2, e) \<Rightarrow> (h2, (fst kj, v) # e)))"

text \<open>\<open>for feat in gj.get("features", [])\<close>: the values the loop visits.\<close>

definition features_of :: "store \<Rightarrow> val \<Rightarrow> error + val list" where
  "features_of h gj =
     (case gj of
        VRef a \<Rightarrow>
          (if a < length h then
             (case h ! a of
                ODict g \<Rightarrow>
                  (case map_of g (ascii ''features'') of
                     None \<Rightarrow> Inr []
                   | Some v \<Rightarrow>
                       (case v of
                          VRef b \<Rightarrow>
                            (if b < length h then
                               (case h ! b of
                                  OList vs \<Rightarrow> Inr vs
                                | ODict d \<Rightarrow> Inr (map (\<lambda>(k, _). VStr k) d))
                             else Inl TypeError)
                        | VStr s \<Rightarrow> Inr (map (\<lambda>c. VStr [c]) s)
                        | _ \<Rightarrow> Inl TypeError))
              | OList _ \<Rightarrow> Inl AttributeError)
           else Inl AttributeError)
      | _ \<Rightarrow> Inl AttributeError)"

text \<open>
  The body of the loop on the store, in its two statements.
  \<open>props = feat.setdefault("properties", {})\<close>, for the feature at address \<open>a\<close> with the
  members \<open>f\<close>, allocates the empty dictionary and links it into the feature when
  \<open>properties\<close> is missing. \<open>props["region_norm"] = norm_str(props.get(key, ""))\<close> updates
  the \<open>properties\<close> object in place; its result is the store and the exception raised, if
  any.
\<close>

definition setdefault_properties :: "store \<Rightarrow> nat \<Rightarrow> (ustr \<times> val) list \<Rightarrow> store \<times> val" where
  "setdefault_properties h a f =
     (case map_of f (ascii ''properties'') of
        Some p \<Rightarrow> (h, p)
      | None \<Rightarrow>
          (h[a := ODict (f @ [(ascii ''properties'', VRef (length h))])] @ [ODict []],
           VRef (length h)))"

definition set_region_norm :: "pylib \<Rightarrow> nat \<Rightarrow> ustr \<Rightarrow> store \<Rightarrow> val \<Rightarrow> store \<times> error option" where
  "set_region_norm L limit key h props =
     (case props of
        VRef b \<Rightarrow>
          (if b < length h then
             (case h ! b of
                ODict d \<Rightarrow>
                  (case value_of limit h (case map_of d key of None \<Rightarrow> VStr [] | Some v \<Rightarrow> v) of
                     None \<Rightarrow> (h, Some ValueError)
                   | Some j \<Rightarrow>
                       (case norm_str L j of
                          Inl e \<Rightarrow> (h, Some e)
                        | Inr t \<Rightarrow>
                            (h[b := ODict (AList.update (ascii ''region_norm'') (VStr t) d)],
                             None)))
              | OList _ \<Rightarrow> (h, Some AttributeError))
           else (h, Some AttributeError))
      | _ \<Rightarrow> (h, Some AttributeError))"

definition annotate_object :: "pylib \<Rightarrow> nat \<Rightarrow> ustr \<Rightarrow> store \<Rightarrow> val \<Rightarrow> store \<times> error option" where
  "annotate_object L limit key h feat =
     (case feat of
        VRef a \<Rightarrow>
          (if a < length h then
             (case h ! a of
                ODict f \<Rightarrow>
                  (case setdefault_properties h a f of
                     (h1, props) \<Rightarrow> set_region_norm L limit key h1 props)
              | OList _ \<Rightarrow> (h, Some AttributeError))
           else (h, Some AttributeError))
      | _ \<Rightarrow> (h, Some AttributeError))"

fun annotate_objects :: "pylib \<Rightarrow> nat \<Rightarrow> ustr \<Rightarrow> store \<Rightarrow> val list \<Rightarrow> store \<times> error option" where
  "annotate_objects L limit key h [] = (h, None)"
| "annotate_objects L limit key h (feat # feats) =
     (case annotate_object L limit key h feat of
        (h1, Some e) \<Rightarrow> (h1, Some e)
      | (h1, None) \<Rightarrow> annotate_objects L limit key h1 feats)"

text \<open>
  \<open>geojson_with_norm_names\<close> on the store: \<open>geojson\<close> is the caller's value in the store
  \<open>h\<close>. \<open>json.dumps\<close> reads it (and raises on a circular or too deeply nested structure),
  \<open>json.loads\<close> allocates the copy \<open>gj\<close>; the key is detected on the copy, whose value is
  the value \<open>j\<close> just read; the loop then works on the objects of the copy. The result is
  the final store with the exception or the returned pair.
\<close>

definition geojson_with_norm_names_store ::
    "pylib \<Rightarrow> nat \<Rightarrow> store \<Rightarrow> val \<Rightarrow> store \<times> (error + val \<times> ustr)" where
  "geojson_with_norm_names_store L limit h geojson =
     (case value_of limit h geojson of
        None \<Rightarrow> (h, Inl ValueError)
      | Some j \<Rightarrow>
          (case json_loads h j of
             (h1, gj) \<Rightarrow>
               (case guess_geojson_region_key j of
                  Inl e \<Rightarrow> (h1, Inl e)
                | Inr key \<Rightarrow>
                    (case features_of h1 gj of
                       Inl e \<Rightarrow> (h1, Inl e)
                     | Inr feats \<Rightarrow>
                         (case annotate_objects L limit key h1 feats of
                            (h2, Some e) \<Rightarrow> (h2, Inl e)
                          | (h2, None) \<Rightarrow> (h2, Inr (gj, key)))))))"

section \<open>\<open>load_data\<close>\<close>

text \<open>
  \<^verbatim>\<open>
  def load_data(data_path=None):
      if data_path is None: data_path, _ = get_project_paths()
      if not data_path.exists(): raise FileNotFoundError(...)
      df = pd.read_csv(data_path, sep=",", dtype={0: str, "CODGEO_2025": str}, low_memory=False)
      if "annee" in df.columns:
          df["annee"] = pd.to_numeric(df.get("annee"), errors="coerce").astype("Int64")
      for c in ["nombre", "insee_pop"]:
          if c in df.columns: df[c] = pd.to_numeric(df[c], errors="coerce")
      if "nombre" in df.columns and "insee_pop" in df.columns:
          df = df[df["nombre"].notna() & df["insee_pop"].notna()]
      if "nom_region" in df.columns:
          df["nom_region_norm"] = df["nom_region"].map(norm_str)
      return df
  \<close>
  The file system maps a path that exists to what \<open>pd.read_csv\<close> makes of the file there:
  a parse error or a table.
\<close>

type_synonym path = string

type_synonym filesystem = "path \<rightharpoonup> error + csv_row dataframe"

text \<open>\<open>pd.to_numeric(_, errors="coerce")\<close> on one cell.\<close>

definition to_numeric :: "pylib \<Rightarrow> cell \<Rightarrow> rat option" where
  "to_numeric L c = (case c of NaN \<Rightarrow> None | Num x \<Rightarrow> Some x | Text s \<Rightarrow> to_number L s)"

text \<open>\<open>astype("Int64")\<close> on one value: a number that is not an integer cannot be cast.\<close>

definition astype_Int64 :: "rat option \<Rightarrow> error + int option" where
  "astype_Int64 x =
     (case x of
        None \<Rightarrow> Inr None
      | Some r \<Rightarrow> if of_int \<lfloor>r\<rfloor> = r then Inr (Some \<lfloor>r\<rfloor>) else Inl TypeError)"

fun astype_Int64_column :: "rat option list \<Rightarrow> error + int option list" where
  "astype_Int64_column [] = Inr []"
| "astype_Int64_column (x # xs) =
     (case astype_Int64 x of
        Inl e \<Rightarrow> Inl e
      | Inr y \<Rightarrow> (case astype_Int64_column xs of Inl e \<Rightarrow> Inl e | Inr ys \<Rightarrow> Inr (y # ys)))"

text \<open>A missing cell of \<open>nom_region\<close> is the float \<open>nan\<close>, which \<open>norm_str\<close> turns into
  the text \<open>"nan"\<close>.\<close>

definition region_cell :: "ustr option \<Rightarrow> json" where
  "region_cell c = (case c of None \<Rightarrow> JStr (ascii ''nan'') | Some s \<Rightarrow> JStr s)"

text \<open>\<open>Series.map(norm_str)\<close>: the values of the new column, or the first exception.\<close>

fun map_norm_str :: "pylib \<Rightarrow> json list \<Rightarrow> error + ustr list" where
  "map_norm_str L [] = Inr []"
| "map_norm_str L (v # vs) =
     (case norm_str L v of
        Inl e \<Rightarrow> Inl e
      | Inr t \<Rightarrow> (case map_norm_str L vs of Inl e \<Rightarrow> Inl e | Inr ts \<Rightarrow> Inr (t # ts)))"

definition load_data :: "pylib \<Rightarrow> filesystem \<Rightarrow> path \<Rightarrow> path option \<Rightarrow> error + row dataframe" where
  "load_data L fs default_path data_path =
     (let p = (case data_path of None \<Rightarrow> default_path | Some q \<Rightarrow> q) in
      case fs p of
        None \<Rightarrow> Inl FileNotFoundError
      | Some (Inl e) \<Rightarrow> Inl e
      | Some (Inr df) \<Rightarrow>
          (let cols = columns df in
           case (if ''annee'' \<in> set cols
                 then astype_Int64_column (map (\<lambda>r. to_numeric L (csv_annee r)) (rows df))
                 else Inr (map (\<lambda>r. None) (rows df))) of
             Inl e \<Rightarrow> Inl e
           | Inr years \<Rightarrow>
               (let rs = map2 (\<lambda>r y.
                           \<lparr> nom_region = csv_nom_region r,
                             nom_region_norm = csv_nom_region_norm r,
                             annee = y,
                             nombre = (if ''nombre'' \<in> set cols
                                       then to_numeric L (csv_nombre r) else None),
                             insee_pop = (if ''insee_pop'' \<in> set cols
                                          then to_numeric L (csv_insee_pop r) else None) \<rparr>)
                          (rows df) years;
                    rs1 = (if ''nombre'' \<in> set cols \<and> ''insee_pop'' \<in> set cols
                           then filter (\<lambda>r. nombre r \<noteq> None \<and> insee_pop r \<noteq> None) rs
                           else rs)
                in if ''nom_region'' \<in> set cols
                   then
                     (case map_norm_str L (map (\<lambda>r. region_cell (nom_region r)) rs1) of
                        Inl e \<Rightarrow> Inl e
                      | Inr norms \<Rightarrow>
                          Inr \<lparr> columns = (if ''nom_region_norm'' \<in> set cols then cols
                                           else cols @ [''nom_region_norm'']),
                                rows = map2 (\<lambda>r t. r\<lparr>nom_region_norm := Some t\<rparr>) rs1 norms \<rparr>)
                   else Inr \<lparr> columns = cols, rows = rs1 \<rparr>)))"

section \<open>\<open>build_region_metrics\<close>\<close>

text \<open>
  \<^verbatim>\<open>
  def build_region_metrics(df):
      required = {"nom_region", "nom_region_norm", "annee", "nombre", "insee_pop"}
      missing = [c for c in required if c not in df.columns]
      if missing: raise KeyError(f"Colonnes manquantes dans le CSV : {missing}")
      g = (df.groupby(["nom_region", "nom_region_norm", "annee"], as_index=False)
             .agg(nb_region=("nombre", "sum"), pop_region=("insee_pop", "sum")))
      g["pop_region"] = g["pop_region"].replace({0: pd.NA})
      g["taux_region_pour_mille"] = 1000 * (g["nb_region"] / g["pop_region"])
      g = g.sort_values(["nom_region", "annee"])
      g["variation_region"] = (g.groupby("nom_region")["taux_region_pour_mille"].diff().fillna(0))
      return g
  \<close>
\<close>

text \<open>The order in which Python iterates the set \<open>required\<close> is not specified; the model
  lists the missing columns in the order of the source text.\<close>

definition required :: "string list" where
  "required = [''nom_region'', ''nom_region_norm'', ''annee'', ''nombre'', ''insee_pop'']"

text \<open>\<open>groupby\<close> drops a row with a missing key; the groups come sorted by key.\<close>

definition group_key :: "row \<Rightarrow> (ustr \<times> ustr \<times> int) option" where
  "group_key r =
     (case nom_region r of
        None \<Rightarrow> None
      | Some a \<Rightarrow>
          (case nom_region_norm r of
             None \<Rightarrow> None
           | Some b \<Rightarrow> (case annee r of None \<Rightarrow> None | Some y \<Rightarrow> Some (a, b, y))))"

definition group_keys :: "row list \<Rightarrow> (ustr \<times> ustr \<times> int) list" where
  "group_keys rs = sort (remdups (List.map_filter group_key rs))"

text \<open>
  The \<open>sum\<close> aggregation on the cells of one group. In an \<open>int64\<close> column the additions
  wrap around: the result is the sum modulo \<open>2 ** 64\<close>, in the range from \<open>-2 ** 63\<close>. (A
  cell of an \<open>int64\<close> column is an integer; the model reads the integer part of any other
  number there, and a missing cell as 0.) In a \<open>float64\<close> column the sum skips the missing
  values and is computed in floating point.
\<close>

definition wrap64 :: "int \<Rightarrow> int" where
  "wrap64 i = (i + 2 ^ 63) mod 2 ^ 64 - 2 ^ 63"

definition int_cell :: "rat option \<Rightarrow> int" where
  "int_cell x = (case x of None \<Rightarrow> 0 | Some r \<Rightarrow> \<lfloor>r\<rfloor>)"

definition group_sum :: "pylib \<Rightarrow> bool \<Rightarrow> rat option list \<Rightarrow> rat" where
  "group_sum L is_int64 xs =
     (if is_int64 then of_int (wrap64 (sum_list (map int_cell xs)))
      else float_sum L (List.map_filter (\<lambda>x. x) xs))"

text \<open>
  \<open>g["nb_region"] / g["pop_region"]\<close> on one row where the population is not \<open>pd.NA\<close>.
  numpy divides two numeric columns as floats: an \<open>int64\<close> operand is converted to
  \<open>float64\<close> first. When \<open>replace\<close> has put a \<open>pd.NA\<close> into an \<open>int64\<close> column, that column
  holds Python objects; the quotient of two integers is then the true division of Python,
  which rounds the exact quotient once (\<open>python_ints\<close>).
\<close>

definition true_divide :: "pylib \<Rightarrow> bool \<Rightarrow> bool \<Rightarrow> bool \<Rightarrow> rat \<Rightarrow> rat \<Rightarrow> rat" where
  "true_divide L python_ints nb_int64 pop_int64 x y =
     (if python_ints then float64 L (x / y)
      else float64 L ((if nb_int64 then float64 L x else x) /
                      (if pop_int64 then float64 L y else y)))"

text \<open>One row of \<open>g\<close> up to the column \<open>taux_region_pour_mille\<close>, for the group with the
  key \<open>k\<close>; \<open>variation_region\<close> is set in the last step. \<open>pop_na\<close> is the value of
  \<open>pop_region\<close> after \<open>replace({0: pd.NA})\<close>, and \<open>has_na\<close> tells whether \<open>replace\<close> has
  put a \<open>pd.NA\<close> into the column, on any row.\<close>

definition group_row :: "pylib \<Rightarrow> row typed_dataframe \<Rightarrow> ustr \<times> ustr \<times> int \<Rightarrow> metric" where
  "group_row L df k =
     (case k of (a, b, y) \<Rightarrow>
        let nb_int64 = ''nombre'' \<in> set (int64_columns df);
            pop_int64 = ''insee_pop'' \<in> set (int64_columns df);
            pop_of = (\<lambda>k'. group_sum L pop_int64
                        (map insee_pop (filter (\<lambda>r. group_key r = Some k') (rows df))));
            nb = group_sum L nb_int64 (map nombre (filter (\<lambda>r. group_key r = Some k) (rows df)));
            pop = pop_of k;
            pop_na = (if pop = 0 then None else Some pop);
            has_na = list_ex (\<lambda>k'. pop_of k' = 0) (group_keys (rows df))
        in \<lparr> g_nom_region = a, g_nom_region_norm = b, g_annee = y,
             nb_region = nb,
             pop_region = pop_na,
             taux_region_pour_mille =
               (case pop_na of
                  None \<Rightarrow> None
                | Some p \<Rightarrow>
                    Some (float64 L (1000 *
                      true_divide L (nb_int64 \<and> pop_int64 \<and> has_na) nb_int64 pop_int64 nb p))),
             variation_region = 0 \<rparr>)"

text \<open>\<open>groupby("nom_region")[...].diff()\<close>: each value minus the previous value of the same
  region in table order, in floating point; missing for the first row of a region and
  when either value is missing. \<open>prev\<close> holds the last value seen for each region.\<close>

definition float_sub :: "pylib \<Rightarrow> rat option \<Rightarrow> rat option \<Rightarrow> rat option" where
  "float_sub L x y =
     (case x of
        None \<Rightarrow> None
      | Some a \<Rightarrow> (case y of None \<Rightarrow> None | Some b \<Rightarrow> Some (float64 L (a - b))))"

fun group_diff :: "pylib \<Rightarrow> (ustr \<rightharpoonup> rat option) \<Rightarrow> (ustr \<times> rat option) list \<Rightarrow> rat option list" where
  "group_diff L prev [] = []"
| "group_diff L prev ((a, t) # xs) =
     (case prev a of None \<Rightarrow> None | Some p \<Rightarrow> float_sub L t p)
     # group_diff L (prev(a \<mapsto> t)) xs"

definition fillna0 :: "rat option \<Rightarrow> rat" where
  "fillna0 x = (case x of None \<Rightarrow> 0 | Some r \<Rightarrow> r)"

definition build_region_metrics :: "pylib \<Rightarrow> row typed_dataframe \<Rightarrow> error + metric list" where
  "build_region_metrics L df =
     (let missing = filter (\<lambda>c. c \<notin> set (columns df)) required in
      if missing \<noteq> [] then Inl (KeyError missing)
      else
        let g = map (group_row L df) (group_keys (rows df));
            g1 = sort_key (\<lambda>m. (g_nom_region m, g_annee m)) g;
            variation = map fillna0
              (group_diff L Map.empty (map (\<lambda>m. (g_nom_region m, taux_region_pour_mille m)) g1))
        in Inr (map2 (\<lambda>m v. m\<lparr>variation_region := v\<rparr>) g1 variation))"

section \<open>\<open>compute_matching_diagnostics\<close>\<close>

text \<open>
  \<^verbatim>\<open>
  def compute_matching_diagnostics(g_y, geojson_norm):
      geo_regions = {feat.get("properties", {}).get("region_norm", "")
                     for feat in geojson_norm.get("features", [])}
      geo_regions = {r for r in geo_regions if r}
      data_regions = set(g_y["nom_region_norm"].dropna().unique())
      missing_in_geo = sorted([r for r in data_regions if r not in geo_regions])
      missing_in_data = sorted([r for r in geo_regions if r not in data_regions])
      return {"n_regions_data": len(data_regions), "n_regions_geo": len(geo_regions),
              "missing_in_geo": missing_in_geo, "missing_in_data": missing_in_data}
  \<close>
\<close>

text \<open>The element that one feature contributes to the first set; a list or a dictionary
  cannot be a member of a set.\<close>

definition region_norm_of :: "json \<Rightarrow> error + json" where
  "region_norm_of feat =
     (case feat of
        JObj f \<Rightarrow>
          (case dict_get f (ascii ''properties'') (JObj []) of
             JObj d \<Rightarrow>
               (case dict_get d (ascii ''region_norm'') (JStr []) of
                  JArr _ \<Rightarrow> Inl TypeError
                | JObj _ \<Rightarrow> Inl TypeError
                | r \<Rightarrow> Inr r)
           | _ \<Rightarrow> Inl AttributeError)
      | _ \<Rightarrow> Inl AttributeError)"

fun region_norms :: "json list \<Rightarrow> error + json list" where
  "region_norms [] = Inr []"
| "region_norms (feat # feats) =
     (case region_norm_of feat of
        Inl e \<Rightarrow> Inl e
      | Inr r \<Rightarrow> (case region_norms feats of Inl e \<Rightarrow> Inl e | Inr rs \<Rightarrow> Inr (r # rs)))"

text \<open>The members of \<open>geo_regions\<close> are strings whenever the collection was annotated by
  \<open>geojson_with_norm_names\<close>. A collection in which some \<open>region_norm\<close> is \<open>True\<close> or a
  non-zero number is outside this model (\<open>Unsupported\<close>).\<close>

fun string_keys :: "json list \<Rightarrow> error + ustr list" where
  "string_keys [] = Inr []"
| "string_keys (r # rs) =
     (case r of
        JStr s \<Rightarrow> (case string_keys rs of Inl e \<Rightarrow> Inl e | Inr ks \<Rightarrow> Inr (s # ks))
      | _ \<Rightarrow> Inl Unsupported)"

definition compute_matching_diagnostics :: "metric list \<Rightarrow> json \<Rightarrow> error + diagnostics" where
  "compute_matching_diagnostics g_y geojson_norm =
     (case geojson_norm of
        JObj g \<Rightarrow>
          (case iter_values (dict_get g (ascii ''features'') (JArr [])) of
             Inl e \<Rightarrow> Inl e
           | Inr feats \<Rightarrow>
               (case region_norms feats of
                  Inl e \<Rightarrow> Inl e
                | Inr rs \<Rightarrow>
                    (case string_keys (filter truthy rs) of
                       Inl e \<Rightarrow> Inl e
                     | Inr ks \<Rightarrow>
                         (let geo_regions = set ks;
                              data_regions = set (map g_nom_region_norm g_y)
                          in Inr \<lparr> n_regions_data = card data_regions,
                                   n_regions_geo = card geo_regions,
                                   missing_in_geo =
                                     sorted_list_of_set {r \<in> data_regions. r \<notin> geo_regions},
                                   missing_in_data =
                                     sorted_list_of_set {r \<in> geo_regions. r \<notin> data_regions} \<rparr>))))
      | _ \<Rightarrow> Inl AttributeError)"

section \<open>Example inputs and auxiliary notions\<close>

text \<open>The three spellings that the specification compares; U+00CE is the capital I with
  circumflex.\<close>

definition ile_de_france_accented :: ustr where
  "ile_de_france_accented = 0xCE # ascii ''le-de-France''"

definition ile_de_france_plain :: ustr where
  "ile_de_france_plain = ascii ''ile de france''"

definition ile_de_france_upper :: ustr where
  "ile_de_france_upper = [0x20, 0x20, 0xCE] @ ascii ''LE-DE-FRANCE ''"

text \<open>Feature collections with one feature: the example of the specification, with the
  properties \<open>{"NOM": "Bretagne"}\<close>, and its annotated form; a feature whose only property
  is a number; a feature that already has a property \<open>region_norm\<close>, and its annotated
  form.\<close>

definition collection :: "(ustr \<times> json) list \<Rightarrow> json" where
  "collection props = JObj [(ascii ''features'', JArr [JObj [(ascii ''properties'', JObj props)]])]"

definition geo_bretagne :: json where
  "geo_bretagne = collection [(ascii ''NOM'', JStr (ascii ''Bretagne''))]"

definition geo_bretagne_annotated :: json where
  "geo_bretagne_annotated =
     collection [(ascii ''NOM'', JStr (ascii ''Bretagne'')),
                 (ascii ''region_norm'', JStr (ascii ''bretagne''))]"

definition geo_code_only :: json where
  "geo_code_only = collection [(ascii ''code'', JInt 11)]"






text \<open>A store for the specification's example: the caller's collection is the object at
  address 3.\<close>

definition store_bretagne :: store where
  "store_bretagne =
     [ODict [(ascii ''NOM'', VStr (ascii ''Bretagne''))],
      ODict [(ascii ''properties'', VRef 0)],
      OList [VRef 1],
      ODict [(ascii ''features'', VRef 2)]]"

text \<open>The store after \<open>geojson_with_norm_names\<close>: the copy is the object at address 7,
  and only the copy has the property \<open>region_norm\<close>.\<close>

definition store_bretagne_annotated :: store where
  "store_bretagne_annotated =
     store_bretagne @
     [ODict [(ascii ''NOM'', VStr (ascii ''Bretagne'')),
             (ascii ''region_norm'', VStr (ascii ''bretagne''))],
      ODict [(ascii ''properties'', VRef 4)],
      OList [VRef 5],
      ODict [(ascii ''features'', VRef 6)]]"

text \<open>
  Notions for reasoning on the store. A value is \<open>fresh\<close> between \<open>n\<close> and \<open>m\<close> when it is
  a scalar or refers to an address from \<open>n\<close> up to \<open>m\<close> (excluded). The part of a store
  from address \<open>n\<close> on is \<open>closed\<close> when its objects hold fresh values only: then no path
  leads from there to an object below \<open>n\<close>.
\<close>

definition fresh :: "nat \<Rightarrow> nat \<Rightarrow> val \<Rightarrow> bool" where
  "fresh n m v = (case v of VRef a \<Rightarrow> n \<le> a \<and> a < m | _ \<Rightarrow> True)"

definition obj_vals :: "obj \<Rightarrow> val list" where
  "obj_vals ob = (case ob of OList vs \<Rightarrow> vs | ODict d \<Rightarrow> map snd d)"

definition closed :: "nat \<Rightarrow> store \<Rightarrow> bool" where
  "closed n h \<longleftrightarrow>
     n \<le> length h \<and>
     (\<forall>a. n \<le> a \<and> a < length h \<longrightarrow> list_all (fresh n (length h)) (obj_vals (h ! a)))"

text \<open>A file system with one file, whose table has three rows: a complete one, one whose
  count is the text \<open>"ND"\<close>, and one whose population is missing; and the table that
  \<open>load_data\<close> makes of it.\<close>

definition csv_sample :: "csv_row dataframe" where
  "csv_sample =
     \<lparr> columns = [''nom_region'', ''annee'', ''nombre'', ''insee_pop''],
       rows =
         [\<lparr> csv_nom_region = Some (ascii ''Bretagne''), csv_nom_region_norm = None,
             csv_annee = Num 2020, csv_nombre = Text (ascii ''12''), csv_insee_pop = Num 1000 \<rparr>,
          \<lparr> csv_nom_region = Some (ascii ''Bretagne''), csv_nom_region_norm = None,
             csv_annee = Num 2021, csv_nombre = Text (ascii ''ND''), csv_insee_pop = Num 1000 \<rparr>,
          \<lparr> csv_nom_region = Some (ascii ''Bretagne''), csv_nom_region_norm = None,
             csv_annee = Num 2022, csv_nombre = Num 5, csv_insee_pop = NaN \<rparr>] \<rparr>"

definition fs_sample :: filesystem where
  "fs_sample = [''Data/communes_clean.csv'' \<mapsto> Inr csv_sample]"

definition df_sample :: "row dataframe" where
  "df_sample =
     \<lparr> columns = [''nom_region'', ''annee'', ''nombre'', ''insee_pop'', ''nom_region_norm''],
       rows =
         [\<lparr> nom_region = Some (ascii ''Bretagne''), nom_region_norm = Some (ascii ''bretagne''),
             annee = Some 2020, nombre = Some 12, insee_pop = Some 1000 \<rparr>] \<rparr>"

text \<open>Tables for \<open>build_region_metrics\<close>, with their measure columns of dtype \<open>int64\<close> or
  \<open>float64\<close>: the example of the specification (region \<open>A\<close>, years 2020 and 2021); a region
  whose population sums to zero in 2021; a region name that comes with two normalized
  keys in the same year; a table with a group of two rows, a group whose populations sum
  to zero and a second region; a table with a missing count; and a table whose two
  counts of \<open>2 ** 62\<close> exceed the range of \<open>int64\<close> together.\<close>

definition table_row :: "string \<Rightarrow> string \<Rightarrow> int \<Rightarrow> rat \<Rightarrow> rat \<Rightarrow> row" where
  "table_row a b y n p =
     \<lparr> nom_region = Some (ascii a), nom_region_norm = Some (ascii b), annee = Some y,
       nombre = Some n, insee_pop = Some p \<rparr>"

definition group :: "string \<Rightarrow> string \<Rightarrow> int \<Rightarrow> rat \<Rightarrow> rat option \<Rightarrow> rat option \<Rightarrow> rat \<Rightarrow> metric" where
  "group a b y n p t v =
     \<lparr> g_nom_region = ascii a, g_nom_region_norm = ascii b, g_annee = y, nb_region = n,
       pop_region = p, taux_region_pour_mille = t, variation_region = v \<rparr>"

definition int64_table :: "row list \<Rightarrow> row typed_dataframe" where
  "int64_table rs =
     \<lparr> columns = required, rows = rs, int64_columns = [''nombre'', ''insee_pop''] \<rparr>"

definition float64_table :: "row list \<Rightarrow> row typed_dataframe" where
  "float64_table rs = \<lparr> columns = required, rows = rs, int64_columns = [] \<rparr>"

definition df_spec :: "row typed_dataframe" where
  "df_spec =
     float64_table [table_row ''A'' ''a'' 2020 10 1000, table_row ''A'' ''a'' 2021 20 1000]"

definition df_zero_pop :: "row typed_dataframe" where
  "df_zero_pop =
     int64_table [table_row ''A'' ''a'' 2020 10 1000, table_row ''A'' ''a'' 2021 5 0,
                  table_row ''A'' ''a'' 2022 20 1000]"

definition df_two_keys :: "row typed_dataframe" where
  "df_two_keys =
     float64_table [table_row ''A'' ''a'' 2020 10 1000, table_row ''A'' ''b'' 2020 30 1000]"

definition df_sums :: "row typed_dataframe" where
  "df_sums =
     int64_table [table_row ''A'' ''a'' 2020 10 1000, table_row ''B'' ''b'' 2020 3 300,
                  table_row ''A'' ''a'' 2021 7 0, table_row ''A'' ''a'' 2020 5 1000,
                  table_row ''A'' ''a'' 2021 1 0]"

definition df_missing :: "row typed_dataframe" where
  "df_missing =
     float64_table [table_row ''A'' ''a'' 2020 10 1000,
                    (table_row ''A'' ''a'' 2020 0 1000)\<lparr>nombre := None\<rparr>]"

definition df_wrap :: "row typed_dataframe" where
  "df_wrap =
     int64_table [table_row ''A'' ''a'' 2020 (2 ^ 62) 300, table_row ''A'' ''a'' 2020 (2 ^ 62) 700]"

text \<open>The rows of the input table that make up a group of the result.\<close>

definition members :: "row typed_dataframe \<Rightarrow> metric \<Rightarrow> row list" where
  "members df m =
     filter (\<lambda>r. group_key r = Some (g_nom_region m, g_nom_region_norm m, g_annee m)) (rows df)"

text \<open>A difference that is null when either operand is null, as the specification asks of
  arithmetic on nullable numbers.\<close>

definition minus_null :: "rat option \<Rightarrow> rat option \<Rightarrow> rat option" where
  "minus_null x y =
     (case x of None \<Rightarrow> None | Some a \<Rightarrow> (case y of None \<Rightarrow> None | Some b \<Rightarrow> Some (a - b)))"

text \<open>Every region name of the table comes with one normalized key, as in a table that
  \<open>load_data\<close> returns.\<close>

definition one_key_per_region :: "row list \<Rightarrow> bool" where
  "one_key_per_region rs \<longleftrightarrow>
     (\<forall>r\<in>set rs. \<forall>r'\<in>set rs. nom_region r = nom_region r' \<longrightarrow>
        nom_region_norm r = nom_region_norm r')"

text \<open>The table \<open>g\<close> of \<open>build_region_metrics\<close> after \<open>sort_values\<close>, and the column
  \<open>variation_region\<close> computed from it.\<close>

definition sorted_groups :: "pylib \<Rightarrow> row typed_dataframe \<Rightarrow> metric list" where
  "sorted_groups L df =
     sort_key (\<lambda>m. (g_nom_region m, g_annee m)) (map (group_row L df) (group_keys (rows df)))"

definition variations :: "pylib \<Rightarrow> row typed_dataframe \<Rightarrow> rat list" where
  "variations L df =
     map fillna0 (group_diff L Map.empty
       (map (\<lambda>m. (g_nom_region m, taux_region_pour_mille m)) (sorted_groups L df)))"

text \<open>For \<open>compute_matching_diagnostics\<close>: the \<open>region_norm\<close> of a feature when it is a
  string (as it is after \<open>geojson_with_norm_names\<close>; the empty string when the feature or
  its properties lack the member); the number of distinct non-empty keys of a metrics
  table, as the claim counts them; the example of the specification, with the keys
  \<open>bretagne\<close>, \<open>normandie\<close> in the data and \<open>bretagne\<close>, \<open>paca\<close> in the collection; and a
  metrics table whose only region name is blank, so that its key is the empty string.\<close>

definition region_norm_text :: "json \<Rightarrow> ustr option" where
  "region_norm_text feat =
     (case feat of
        JObj f \<Rightarrow>
          (case dict_get f (ascii ''properties'') (JObj []) of
             JObj d \<Rightarrow>
               (case dict_get d (ascii ''region_norm'') (JStr []) of
                  JStr s \<Rightarrow> Some s
                | _ \<Rightarrow> None)
           | _ \<Rightarrow> None)
      | _ \<Rightarrow> None)"

definition distinct_nonempty_keys :: "metric list \<Rightarrow> nat" where
  "distinct_nonempty_keys g_y = card (set (filter (\<lambda>k. k \<noteq> []) (map g_nom_region_norm g_y)))"

definition annotated_feature :: "string \<Rightarrow> json" where
  "annotated_feature k = JObj [(ascii ''properties'', JObj [(ascii ''region_norm'', JStr (ascii k))])]"

definition geo_two :: json where
  "geo_two = JObj [(ascii ''features'', JArr [annotated_feature ''bretagne'', annotated_feature ''paca''])]"

definition g_two :: "metric list" where
  "g_two = [group ''Bretagne'' ''bretagne'' 2020 10 (Some 1000) (Some 10) 0,
            group ''Normandie'' ''normandie'' 2020 20 (Some 1000) (Some 20) 0]"

definition g_blank :: "metric list" where
  "g_blank = [group ''  '' [] 2020 10 (Some 1000) (Some 10) 0]"

section \<open>Properties\<close>

subsection \<open>Evaluation\<close>

text \<open>The definitions that the simplifier unfolds to evaluate the functions on the example
  inputs.\<close>

lemmas fragment_defs =
  norm_str_def to_str_def cpython_fragment_def strip_def isspace_def ascii_def lower_cp_def
  nfd_fragment_def decompose_cp_def decomposition_table_def combining_def split_def
  str_fragment_def

lemmas geo_defs =
  guess_geojson_region_key_def geojson_with_norm_names_def annotate_feature_def dict_get_def
  truthy_def item0_def contains_def iter_values_def candidates_def collection_def ascii_def

subsection \<open>Whitespace\<close>

lemma split_from_words:
  "\<forall>c\<in>set cur. \<not> isspace c \<Longrightarrow>
   \<forall>w\<in>set (split_from cur s). w \<noteq> [] \<and> (\<forall>c\<in>set w. \<not> isspace c)"
proof (induction s arbitrary: cur)
  case Nil
  then show ?case by simp
next
  case (Cons c cs)
  show ?case
  proof (cases "isspace c")
    case True
    have "\<forall>w\<in>set (split_from [] cs). w \<noteq> [] \<and> (\<forall>c\<in>set w. \<not> isspace c)"
      using Cons.IH[of "[]"] by simp
    with True Cons.prems show ?thesis by simp
  next
    case False
    with Cons.prems have "\<forall>c'\<in>set (cur @ [c]). \<not> isspace c'" by simp
    from Cons.IH[OF this] False show ?thesis by simp
  qed
qed

lemma split_from_subset:
  "w \<in> set (split_from cur s) \<Longrightarrow> set w \<subseteq> set cur \<union> set s"
  by (induction cur s rule: split_from.induct) (auto split: if_splits)

lemma split_from_word:
  "\<forall>c\<in>set w. \<not> isspace c \<Longrightarrow> split_from cur (w @ rest) = split_from (cur @ w) rest"
  by (induction w arbitrary: cur) auto

lemma isspace_space: "isspace 0x20"
  by (simp add: isspace_def)

lemma split_join:
  "\<forall>w\<in>set ws. w \<noteq> [] \<and> (\<forall>c\<in>set w. \<not> isspace c) \<Longrightarrow> split_from [] (join_space ws) = ws"
proof (induction ws rule: join_space.induct)
  case 1
  then show ?case by simp
next
  case (2 w)
  then have "split_from [] (w @ []) = split_from ([] @ w) []"
    by (intro split_from_word) simp
  with 2 show ?case by simp
next
  case (3 w v ws)
  then have "split_from [] (w @ 0x20 # join_space (v # ws)) =
             split_from ([] @ w) (0x20 # join_space (v # ws))"
    by (intro split_from_word) simp
  with 3 show ?case by (simp add: isspace_space)
qed

lemma join_space_ends:
  "\<forall>w\<in>set ws. w \<noteq> [] \<Longrightarrow> ws \<noteq> [] \<Longrightarrow>
   join_space ws \<noteq> [] \<and> hd (join_space ws) = hd (hd ws) \<and> last (join_space ws) = last (last ws)"
  by (induction ws rule: join_space.induct) auto

lemma dropWhile_unchanged: "s = [] \<or> \<not> P (hd s) \<Longrightarrow> dropWhile P s = s"
  by (cases s) auto

lemma strip_unchanged:
  assumes "s = [] \<or> (\<not> isspace (hd s) \<and> \<not> isspace (last s))"
  shows "strip s = s"
proof (cases "s = []")
  case True
  then show ?thesis by (simp add: strip_def)
next
  case False
  with assms have h: "\<not> isspace (hd s)" and l: "\<not> isspace (last s)" by auto
  from h False have 1: "dropWhile isspace s = s" by (simp add: dropWhile_unchanged)
  from l False have 2: "dropWhile isspace (rev s) = rev s"
    by (intro dropWhile_unchanged) (simp add: hd_rev)
  show ?thesis by (simp add: strip_def 1 2)
qed

lemma strip_join:
  assumes "\<forall>w\<in>set ws. w \<noteq> [] \<and> (\<forall>c\<in>set w. \<not> isspace c)"
  shows "strip (join_space ws) = join_space ws"
proof (cases "ws = []")
  case True
  then show ?thesis by (simp add: strip_def)
next
  case False
  with assms have j: "join_space ws \<noteq> []" "hd (join_space ws) = hd (hd ws)"
      "last (join_space ws) = last (last ws)"
    using join_space_ends[of ws] by auto
  from False have m: "hd ws \<in> set ws" "last ws \<in> set ws" by auto
  with assms have "hd ws \<noteq> []" "last ws \<noteq> []" by blast+
  then have "hd (hd ws) \<in> set (hd ws)" "last (last ws) \<in> set (last ws)" by simp_all
  with assms m have "\<not> isspace (hd (hd ws))" "\<not> isspace (last (last ws))" by blast+
  with j show ?thesis by (intro strip_unchanged) simp
qed

lemma set_join_space: "set (join_space ws) \<subseteq> insert 0x20 (\<Union>w\<in>set ws. set w)"
  by (induction ws rule: join_space.induct) auto

subsection \<open>\<open>norm_str\<close>\<close>

lemma abs_power10: "(10::int) ^ n \<le> \<bar>10 ^ n\<bar>"
  by simp

lemma below_str_limit:
  assumes "\<bar>i :: int\<bar> < 10 ^ 4"
  shows "\<not> 10 ^ int_max_str_digits \<le> \<bar>i\<bar>"
proof -
  have "(10::int) ^ 4 \<le> 10 ^ int_max_str_digits"
    unfolding int_max_str_digits_def by (rule power_increasing) simp_all
  with assms show ?thesis by linarith
qed

lemma digits_2024: "digits 2024 = ascii ''2024''"
  by (simp add: digits.simps[of 2024] digits.simps[of 202] digits.simps[of 20]
      digits.simps[of 2] ascii_def)

lemma norm_str_text:
  "norm_str L (JStr s) =
     Inr (join_space (split (filter (\<lambda>ch. \<not> category_Mn L ch) (nfd L (str_lower L (strip s))))))"
  by (simp add: norm_str_def to_str_def)

lemma norm_str_words:
  assumes "norm_str L v = Inr t" and "v \<noteq> JNull"
  shows "\<exists>ws. t = join_space ws \<and>
           (\<forall>w\<in>set ws. w \<noteq> [] \<and> (\<forall>c\<in>set w. \<not> isspace c \<and> \<not> category_Mn L c))"
proof -
  from assms obtain s0 where s0: "to_str L v = Inr s0"
    by (cases "to_str L v") (simp_all add: norm_str_def)
  define s3 where
    "s3 = filter (\<lambda>ch. \<not> category_Mn L ch) (nfd L (str_lower L (strip s0)))"
  have n: "t = join_space (split s3)"
    using assms s0 by (simp add: norm_str_def s3_def)
  have "\<forall>w\<in>set (split s3). w \<noteq> [] \<and> (\<forall>c\<in>set w. \<not> isspace c \<and> \<not> category_Mn L c)"
  proof
    fix w assume w: "w \<in> set (split s3)"
    then have a: "w \<noteq> [] \<and> (\<forall>c\<in>set w. \<not> isspace c)"
      unfolding split_def using split_from_words[of "[]" s3] by simp
    from w have "set w \<subseteq> set s3"
      unfolding split_def using split_from_subset[of w "[]" s3] by simp
    then have "\<forall>c\<in>set w. \<not> category_Mn L c" by (auto simp: s3_def)
    with a show "w \<noteq> [] \<and> (\<forall>c\<in>set w. \<not> isspace c \<and> \<not> category_Mn L c)" by simp
  qed
  with n show ?thesis by blast
qed

text \<open>
  C9, as stated, fails: \<open>norm_str\<close> calls \<open>str(s)\<close> on a value that is not a string, and
  \<open>str()\<close> can raise. In CPython 3.11 the integer \<open>10 ** 4300\<close>, which has 4301 digits, makes
  it raise \<open>ValueError\<close>, and \<open>norm_str\<close> catches nothing.
\<close>

theorem norm_str_coercion_counterexample:
  "norm_str cpython_fragment (JInt (10 ^ 4300)) = Inl ValueError"
  unfolding norm_str_def to_str_def cpython_fragment_def str_fragment_def int_max_str_digits_def
  by (simp only: abs_power10 json.simps json.case pylib.simps if_True if_False sum.case)

text \<open>
  C9, amended. On \<open>None\<close>, \<open>norm_str\<close> returns the empty string. On a string it returns a
  string and never raises: the text stripped, in lower case, decomposed (NFD), without
  its characters of category Mn, its words joined by single spaces. Any other value is
  first coerced with \<open>str()\<close>: \<open>norm_str\<close> returns what it returns on that text when
  \<open>str()\<close> returns, and raises what \<open>str()\<close> raises otherwise.
\<close>

theorem norm_str_coercion:
  "norm_str L v =
     (case v of
        JNull \<Rightarrow> Inr []
      | JStr s \<Rightarrow>
          Inr (join_space (split (filter (\<lambda>ch. \<not> category_Mn L ch)
                 (nfd L (str_lower L (strip s))))))
      | _ \<Rightarrow> (case py_str L v of Inl e \<Rightarrow> Inl e | Inr t \<Rightarrow> norm_str L (JStr t)))"
  by (cases v; cases "py_str L v") (simp_all add: norm_str_def to_str_def)

text \<open>In CPython: \<open>norm_str(-2024) == "-2024"\<close>, \<open>norm_str(True) == "true"\<close>,
  \<open>norm_str(None) == ""\<close> and \<open>norm_str(" A\\u00C9 ") == "ae"\<close>.\<close>

theorem norm_str_coercion_witness:
  "norm_str cpython_fragment (JInt (- 2024)) = Inr (ascii ''-2024'') \<and>
   norm_str cpython_fragment (JBool True) = Inr (ascii ''true'') \<and>
   norm_str cpython_fragment JNull = Inr [] \<and>
   norm_str cpython_fragment (JStr [0x20, 0x41, 0xC9, 0x20]) = Inr (ascii ''ae'')"
proof -
  have "\<not> 10 ^ int_max_str_digits \<le> \<bar>- 2024 :: int\<bar>"
    by (rule below_str_limit) simp
  then have i: "py_str cpython_fragment (JInt (- 2024)) = Inr (ascii ''-2024'')"
    by (simp add: cpython_fragment_def str_fragment_def digits_2024) (simp add: ascii_def)
  have b: "py_str cpython_fragment (JBool True) = Inr (ascii ''True'')"
    by (simp add: cpython_fragment_def str_fragment_def)
  have 1: "norm_str cpython_fragment (JStr (ascii ''-2024'')) = Inr (ascii ''-2024'')"
    by (simp add: fragment_defs)
  have 2: "norm_str cpython_fragment (JStr (ascii ''True'')) = Inr (ascii ''true'')"
    by (simp add: fragment_defs)
  have 3: "join_space (split (filter (\<lambda>ch. \<not> category_Mn cpython_fragment ch)
             (nfd cpython_fragment (str_lower cpython_fragment (strip [0x20, 0x41, 0xC9, 0x20]))))) =
           ascii ''ae''"
    by (simp add: fragment_defs)
  from norm_str_coercion[of cpython_fragment "JInt (- 2024)"]
    norm_str_coercion[of cpython_fragment "JBool True"]
    norm_str_coercion[of cpython_fragment JNull]
    norm_str_coercion[of cpython_fragment "JStr [0x20, 0x41, 0xC9, 0x20]"]
  show ?thesis by (simp add: i b 1 2 3)
qed

text \<open>
  C3, as stated, fails: \<open>norm_str\<close> keeps the hyphens of \<open>"\\u00CEle-de-France"\<close>, so its result
  differs from that of \<open>"ile de france"\<close>.
\<close>

theorem norm_str_ile_de_france_counterexample:
  "\<not> (norm_str cpython_fragment (JStr ile_de_france_accented) =
        norm_str cpython_fragment (JStr ile_de_france_plain) \<and>
      norm_str cpython_fragment (JStr ile_de_france_plain) =
        norm_str cpython_fragment (JStr ile_de_france_upper))"
proof -
  have 1: "norm_str cpython_fragment (JStr ile_de_france_accented) = Inr (ascii ''ile-de-france'')"
    by (simp add: ile_de_france_accented_def fragment_defs)
  have 2: "norm_str cpython_fragment (JStr ile_de_france_plain) = Inr (ascii ''ile de france'')"
    by (simp add: ile_de_france_plain_def fragment_defs)
  show ?thesis unfolding 1 2 by (simp add: ascii_def)
qed

text \<open>
  C3, amended: \<open>"\\u00CEle-de-France"\<close> and \<open>"  \\u00CELE-DE-FRANCE "\<close> have the same normalized
  string, \<open>"ile-de-france"\<close> (case, accents and surrounding whitespace do not matter);
  \<open>"ile de france"\<close> is normalized to itself.
\<close>

theorem norm_str_ile_de_france:
  "norm_str cpython_fragment (JStr ile_de_france_accented) = Inr (ascii ''ile-de-france'') \<and>
   norm_str cpython_fragment (JStr ile_de_france_upper) = Inr (ascii ''ile-de-france'') \<and>
   norm_str cpython_fragment (JStr ile_de_france_plain) = Inr (ascii ''ile de france'')"
proof -
  have 1: "norm_str cpython_fragment (JStr ile_de_france_accented) = Inr (ascii ''ile-de-france'')"
    by (simp add: ile_de_france_accented_def fragment_defs)
  have 2: "norm_str cpython_fragment (JStr ile_de_france_plain) = Inr (ascii ''ile de france'')"
    by (simp add: ile_de_france_plain_def fragment_defs)
  have 3: "norm_str cpython_fragment (JStr ile_de_france_upper) = Inr (ascii ''ile-de-france'')"
    by (simp add: ile_de_france_upper_def fragment_defs)
  from 1 2 3 show ?thesis by simp
qed

text \<open>
  C7, as stated, fails. In \<open>[U+1D16D, U+0941, U+1D165]\<close> the vowel sign U+0941 (category
  Mn, combining class 0) separates two marks of category Mc; once \<open>norm_str\<close> has removed
  it, the marks stand in the wrong canonical order (226 before 216), and a second
  \<open>norm_str\<close> swaps them: \<open>norm_str(norm_str(s))\<close> is not \<open>norm_str(s)\<close>.
\<close>

theorem norm_str_idempotent_counterexample:
  "norm_str cpython_fragment (JStr [0x1D16D, 0x941, 0x1D165]) = Inr [0x1D16D, 0x1D165] \<and>
   norm_str cpython_fragment (JStr [0x1D16D, 0x1D165]) = Inr [0x1D165, 0x1D16D] \<and>
   norm_str cpython_fragment (JStr [0x1D16D, 0x1D165]) \<noteq>
     norm_str cpython_fragment (JStr [0x1D16D, 0x941, 0x1D165])"
proof -
  have 1: "norm_str cpython_fragment (JStr [0x1D16D, 0x941, 0x1D165]) = Inr [0x1D16D, 0x1D165]"
    by (simp add: fragment_defs)
  have 2: "norm_str cpython_fragment (JStr [0x1D16D, 0x1D165]) = Inr [0x1D165, 0x1D16D]"
    by (simp add: fragment_defs)
  show ?thesis unfolding 1 2 by simp
qed

text \<open>
  C7, amended: \<open>norm_str(norm_str(s)) == norm_str(s)\<close> for every string \<open>s\<close> whose
  normalized form \<open>norm_str(s)\<close> is left unchanged by \<open>lower()\<close> and by NFD normalization
  (the space U+0020 not being of category Mn). Here \<open>t\<close> is the string \<open>norm_str(s)\<close>,
  which exists for every string \<open>s\<close>.
\<close>

theorem norm_str_idempotent:
  assumes "norm_str L (JStr s) = Inr t"
    and "str_lower L t = t"
    and "nfd L t = t"
    and "\<not> category_Mn L 0x20"
  shows "norm_str L (JStr t) = Inr t"
proof -
  obtain ws where r: "t = join_space ws"
    and ws: "\<forall>w\<in>set ws. w \<noteq> [] \<and> (\<forall>c\<in>set w. \<not> isspace c \<and> \<not> category_Mn L c)"
    using norm_str_words[OF assms(1)] by auto
  from ws have ws': "\<forall>w\<in>set ws. w \<noteq> [] \<and> (\<forall>c\<in>set w. \<not> isspace c)" by simp
  have 1: "strip (join_space ws) = join_space ws" using ws' by (rule strip_join)
  have 2: "filter (\<lambda>ch. \<not> category_Mn L ch) (join_space ws) = join_space ws"
  proof -
    have "\<forall>c\<in>set (join_space ws). \<not> category_Mn L c"
      using set_join_space[of ws] ws assms(4) by auto
    then show ?thesis by simp
  qed
  have 3: "split (join_space ws) = ws" unfolding split_def using ws' by (rule split_join)
  show ?thesis
    using assms(2,3) unfolding r
    by (simp add: norm_str_text 1 2 3)
qed

theorem norm_str_idempotent_witness:
  "norm_str cpython_fragment (JStr ile_de_france_upper) = Inr (ascii ''ile-de-france'') \<and>
   str_lower cpython_fragment (ascii ''ile-de-france'') = ascii ''ile-de-france'' \<and>
   nfd cpython_fragment (ascii ''ile-de-france'') = ascii ''ile-de-france'' \<and>
   \<not> category_Mn cpython_fragment 0x20 \<and>
   norm_str cpython_fragment (JStr (ascii ''ile-de-france'')) = Inr (ascii ''ile-de-france'')"
proof -
  have n: "norm_str cpython_fragment (JStr ile_de_france_upper) = Inr (ascii ''ile-de-france'')"
    by (simp add: ile_de_france_upper_def fragment_defs)
  have 1: "str_lower cpython_fragment (ascii ''ile-de-france'') = ascii ''ile-de-france''"
    by (simp add: cpython_fragment_def lower_cp_def ascii_def)
  have 2: "nfd cpython_fragment (ascii ''ile-de-france'') = ascii ''ile-de-france''"
    by (simp add: cpython_fragment_def nfd_fragment_def decompose_cp_def decomposition_table_def
        combining_def ascii_def)
  have 3: "\<not> category_Mn cpython_fragment 0x20"
    by (simp add: cpython_fragment_def)
  from norm_str_idempotent[OF n 1 2 3] n 1 2 3 show ?thesis by simp
qed

subsection \<open>\<open>guess_geojson_region_key\<close>\<close>

lemma first_candidate_dict:
  "first_candidate (JObj d) ks = Inr (find (\<lambda>k. k \<in> set (map fst d)) ks)"
  by (induction ks) (simp_all add: contains_def)

lemma first_text_property_find:
  "first_text_property d =
     map_option fst (find (\<lambda>(k, v). case v of JStr s \<Rightarrow> strip s \<noteq> [] | _ \<Rightarrow> False) d)"
  by (induction d rule: first_text_property.induct) (simp_all split: json.splits)

text \<open>
  C4, as stated, fails. The only property of the first feature of \<open>geo_code_only\<close> is
  \<open>"code": 11\<close>: no candidate matches and no value is a string, so the claim's rule gives
  the default name \<open>"nom"\<close>; the function returns \<open>"code"\<close>, the first property name.
\<close>

theorem guess_geojson_region_key_counterexample:
  "guess_geojson_region_key geo_code_only \<noteq> Inr (spec_key_detection [(ascii ''code'', JInt 11)])"
proof -
  have 1: "guess_geojson_region_key geo_code_only = Inr (ascii ''code'')"
    by (simp add: geo_code_only_def geo_defs)
  have 2: "spec_key_detection [(ascii ''code'', JInt 11)] = ascii ''nom''"
    by (simp add: spec_key_detection_def candidates_def ascii_def)
  show ?thesis unfolding 1 2 by (simp add: ascii_def)
qed

text \<open>
  C4, amended. For a GeoJSON object whose first feature is an object with the properties
  \<open>d\<close> (\<open>d\<close> is empty when \<open>properties\<close> is missing, null or otherwise false), key detection
  returns the first name of the candidate list that is a property name; if there is
  none, the name of the first property whose value is a string that \<open>strip()\<close> leaves
  non-empty; if there is none, the name of the first property; and the default \<open>"nom"\<close>
  only if the feature has no property at all.
\<close>

theorem guess_geojson_region_key_rule:
  assumes "dict_get g (ascii ''features'') (JArr []) = JArr (JObj f # feats)"
    and "dict_get f (ascii ''properties'') (JObj []) = JObj d \<or>
         (\<not> truthy (dict_get f (ascii ''properties'') (JObj [])) \<and> d = [])"
  shows "guess_geojson_region_key (JObj g) =
     Inr (case find (\<lambda>k. k \<in> set (map fst d)) candidates of
            Some k \<Rightarrow> k
          | None \<Rightarrow>
              (case find (\<lambda>(k, v). case v of JStr s \<Rightarrow> strip s \<noteq> [] | _ \<Rightarrow> False) d of
                 Some (k, v) \<Rightarrow> k
               | None \<Rightarrow> (case d of [] \<Rightarrow> ascii ''nom'' | (k, v) # _ \<Rightarrow> k)))"
proof -
  define p where "p = dict_get f (ascii ''properties'') (JObj [])"
  have props: "(if truthy p then p else JObj []) = JObj d"
    using assms(2) unfolding p_def[symmetric] by (auto simp: truthy_def)
  have "guess_geojson_region_key (JObj g) =
        (case first_candidate (JObj d) candidates of
           Inl e \<Rightarrow> Inl e
         | Inr (Some k) \<Rightarrow> Inr k
         | Inr None \<Rightarrow>
             (case first_text_property d of
                Some k \<Rightarrow> Inr k
              | None \<Rightarrow> (case d of [] \<Rightarrow> Inr (ascii ''nom'') | (k, v) # _ \<Rightarrow> Inr k)))"
  proof -
    have t: "truthy (JArr (JObj f # feats))" by (simp add: truthy_def)
    show ?thesis
    proof (cases "truthy p")
      case True
      with props have "p = JObj d" by simp
      with True have pd: "dict_get f (ascii ''properties'') (JObj []) = JObj d"
        and td: "truthy (JObj d)" by (simp_all add: p_def)
      show ?thesis
        by (simp add: guess_geojson_region_key_def Let_def assms(1) t item0_def pd td
            split: sum.splits option.splits)
    next
      case False
      with props have d: "d = []" by simp
      from False have fp: "\<not> truthy (dict_get f (ascii ''properties'') (JObj []))"
        by (simp add: p_def)
      show ?thesis
        by (simp add: guess_geojson_region_key_def Let_def assms(1) t item0_def fp d
            split: sum.splits option.splits)
    qed
  qed
  then show ?thesis
    by (simp add: first_candidate_dict first_text_property_find
        split: option.splits list.splits prod.splits)
qed

theorem guess_geojson_region_key_rule_witness:
  "dict_get [(ascii ''features'', JArr [JObj [(ascii ''properties'',
        JObj [(ascii ''NOM'', JStr (ascii ''Bretagne''))])]])] (ascii ''features'') (JArr []) =
     JArr (JObj [(ascii ''properties'', JObj [(ascii ''NOM'', JStr (ascii ''Bretagne''))])] # []) \<and>
   dict_get [(ascii ''properties'', JObj [(ascii ''NOM'', JStr (ascii ''Bretagne''))])]
       (ascii ''properties'') (JObj []) = JObj [(ascii ''NOM'', JStr (ascii ''Bretagne''))] \<and>
   guess_geojson_region_key geo_bretagne = Inr (ascii ''NOM'')"
proof -
  have 1: "dict_get [(ascii ''features'', JArr [JObj [(ascii ''properties'',
        JObj [(ascii ''NOM'', JStr (ascii ''Bretagne''))])]])] (ascii ''features'') (JArr []) =
     JArr (JObj [(ascii ''properties'', JObj [(ascii ''NOM'', JStr (ascii ''Bretagne''))])] # [])"
    by (simp add: dict_get_def)
  have 2: "dict_get [(ascii ''properties'', JObj [(ascii ''NOM'', JStr (ascii ''Bretagne''))])]
       (ascii ''properties'') (JObj []) = JObj [(ascii ''NOM'', JStr (ascii ''Bretagne''))] \<or>
     (\<not> truthy (dict_get [(ascii ''properties'', JObj [(ascii ''NOM'', JStr (ascii ''Bretagne''))])]
       (ascii ''properties'') (JObj [])) \<and> [(ascii ''NOM'', JStr (ascii ''Bretagne''))] = [])"
    by (simp add: dict_get_def)
  have 3: "(case find (\<lambda>k. k \<in> set (map fst [(ascii ''NOM'', JStr (ascii ''Bretagne''))])) candidates of
            Some k \<Rightarrow> k
          | None \<Rightarrow>
              (case find (\<lambda>(k, v). case v of JStr s \<Rightarrow> strip s \<noteq> [] | _ \<Rightarrow> False)
                      [(ascii ''NOM'', JStr (ascii ''Bretagne''))] of
                 Some (k, v) \<Rightarrow> k
               | None \<Rightarrow> (case [(ascii ''NOM'', JStr (ascii ''Bretagne''))] of
                            [] \<Rightarrow> ascii ''nom'' | (k, v) # _ \<Rightarrow> k))) = ascii ''NOM''"
    by (simp add: candidates_def ascii_def)
  from guess_geojson_region_key_rule[OF 1 2] 1 2 show ?thesis
    unfolding 3 by (simp add: geo_bretagne_def collection_def)
qed

subsection \<open>\<open>geojson_with_norm_names\<close>, on values\<close>








subsection \<open>\<open>geojson_with_norm_names\<close>, on the store\<close>

lemma fresh_mono: "fresh n m v \<Longrightarrow> m \<le> m' \<Longrightarrow> fresh n m' v"
  by (cases v) (simp_all add: fresh_def)

lemma fresh_lower: "fresh n' m v \<Longrightarrow> n \<le> n' \<Longrightarrow> fresh n m v"
  by (cases v) (simp_all add: fresh_def)

lemma list_all_fresh_mono: "list_all (fresh n m) vs \<Longrightarrow> m \<le> m' \<Longrightarrow> list_all (fresh n m') vs"
  by (induction vs) (auto intro: fresh_mono)

lemma list_all_fresh_lower: "list_all (fresh n' m) vs \<Longrightarrow> n \<le> n' \<Longrightarrow> list_all (fresh n m) vs"
  by (induction vs) (auto intro: fresh_lower)

text \<open>Allocating an object whose values are fresh keeps the upper part closed.\<close>

lemma closed_alloc:
  assumes "closed n h" and "list_all (fresh n (Suc (length h))) (obj_vals ob)"
  shows "closed n (h @ [ob])"
  unfolding closed_def
proof (intro conjI allI impI)
  from assms(1) show "n \<le> length (h @ [ob])" by (simp add: closed_def)
next
  fix a assume a: "n \<le> a \<and> a < length (h @ [ob])"
  show "list_all (fresh n (length (h @ [ob]))) (obj_vals ((h @ [ob]) ! a))"
  proof (cases "a < length h")
    case True
    with a assms(1) have "list_all (fresh n (length h)) (obj_vals (h ! a))"
      by (simp add: closed_def)
    then have "list_all (fresh n (length (h @ [ob]))) (obj_vals (h ! a))"
      by (rule list_all_fresh_mono) simp
    with True show ?thesis by (simp add: nth_append)
  next
    case False
    with a have "a = length h" by simp
    with assms(2) show ?thesis by simp
  qed
qed

text \<open>Updating an object of the upper part with fresh values keeps it closed.\<close>

lemma closed_update:
  assumes "closed n h" and "n \<le> b" and "b < length h"
    and "list_all (fresh n (length h)) (obj_vals ob)"
  shows "closed n (h[b := ob])"
  unfolding closed_def
proof (intro conjI allI impI)
  from assms(1) show "n \<le> length (h[b := ob])" by (simp add: closed_def)
next
  fix a assume a: "n \<le> a \<and> a < length (h[b := ob])"
  show "list_all (fresh n (length (h[b := ob]))) (obj_vals (h[b := ob] ! a))"
  proof (cases "a = b")
    case True
    with assms(3,4) show ?thesis by simp
  next
    case False
    with a assms(1) show ?thesis by (simp add: closed_def)
  qed
qed

text \<open>\<open>json.loads\<close> extends the store, keeps the upper part closed, and returns a fresh
  value.\<close>

lemma json_loads_extends:
  "json_loads h j = (h1, v) \<Longrightarrow> closed n h \<Longrightarrow>
     length h \<le> length h1 \<and> take (length h) h1 = h \<and> closed n h1 \<and> fresh n (length h1) v"
  "json_loads_list h js = (h1, vs) \<Longrightarrow> closed n h \<Longrightarrow>
     length h \<le> length h1 \<and> take (length h) h1 = h \<and> closed n h1 \<and>
     list_all (fresh n (length h1)) vs"
  "json_loads_items h d = (h1, e) \<Longrightarrow> closed n h \<Longrightarrow>
     length h \<le> length h1 \<and> take (length h) h1 = h \<and> closed n h1 \<and>
     list_all (fresh n (length h1)) (map snd e)"
proof (induction h j and h js and h d arbitrary: h1 v and h1 vs and h1 e
       rule: json_loads_json_loads_list_json_loads_items.induct)
  case (6 h js)
  obtain h2 vs where l: "json_loads_list h js = (h2, vs)" by (cases "json_loads_list h js")
  from "6.IH"[OF l "6.prems"(2)]
  have i: "length h \<le> length h2" "take (length h) h2 = h" "closed n h2"
      "list_all (fresh n (length h2)) vs" by simp_all
  from "6.prems"(1) l have r: "h1 = h2 @ [OList vs]" "v = VRef (length h2)" by simp_all
  have "closed n (h2 @ [OList vs])"
    using i(3) by (rule closed_alloc)
      (use i(4) in \<open>auto simp: obj_vals_def intro: list_all_fresh_mono\<close>)
  moreover have "n \<le> length h2" using i(3) by (simp add: closed_def)
  ultimately show ?case using i(1,2) unfolding r by (simp add: fresh_def)
next
  case (7 h d)
  obtain h2 e where l: "json_loads_items h d = (h2, e)" by (cases "json_loads_items h d")
  from "7.IH"[OF l "7.prems"(2)]
  have i: "length h \<le> length h2" "take (length h) h2 = h" "closed n h2"
      "list_all (fresh n (length h2)) (map snd e)" by simp_all
  from "7.prems"(1) l have r: "h1 = h2 @ [ODict e]" "v = VRef (length h2)" by simp_all
  have "closed n (h2 @ [ODict e])"
    using i(3) by (rule closed_alloc)
      (use i(4) in \<open>auto simp: obj_vals_def intro: list_all_fresh_mono\<close>)
  moreover have "n \<le> length h2" using i(3) by (simp add: closed_def)
  ultimately show ?case using i(1,2) unfolding r by (simp add: fresh_def)
next
  case (9 h j js)
  obtain h2 w where l: "json_loads h j = (h2, w)" by (cases "json_loads h j")
  obtain h3 ws where m: "json_loads_list h2 js = (h3, ws)" by (cases "json_loads_list h2 js")
  from "9.IH"(1)[OF l "9.prems"(2)]
  have i: "length h \<le> length h2" "take (length h) h2 = h" "closed n h2" "fresh n (length h2) w"
    by simp_all
  from "9.IH"(2)[OF l[symmetric] m i(3)]
  have k: "length h2 \<le> length h3" "take (length h2) h3 = h2" "closed n h3"
      "list_all (fresh n (length h3)) ws" by simp_all
  from "9.prems"(1) l m have r: "h1 = h3" "vs = w # ws" by simp_all
  have "take (length h) h3 = h"
    using i(1,2) k(2) by (metis min.absorb1 take_take)
  moreover have "fresh n (length h3) w" using i(4) k(1) by (rule fresh_mono)
  ultimately show ?case using i(1) k unfolding r by simp
next
  case (11 h kj d)
  obtain h2 w where l: "json_loads h (snd kj) = (h2, w)" by (cases "json_loads h (snd kj)")
  obtain h3 ws where m: "json_loads_items h2 d = (h3, ws)" by (cases "json_loads_items h2 d")
  from "11.IH"(1)[OF l "11.prems"(2)]
  have i: "length h \<le> length h2" "take (length h) h2 = h" "closed n h2" "fresh n (length h2) w"
    by simp_all
  from "11.IH"(2)[OF l[symmetric] m i(3)]
  have k: "length h2 \<le> length h3" "take (length h2) h3 = h2" "closed n h3"
      "list_all (fresh n (length h3)) (map snd ws)" by simp_all
  from "11.prems"(1) l m have r: "h1 = h3" "e = (fst kj, w) # ws" by simp_all
  have "take (length h) h3 = h"
    using i(1,2) k(2) by (metis min.absorb1 take_take)
  moreover have "fresh n (length h3) w" using i(4) k(1) by (rule fresh_mono)
  ultimately show ?case using i(1) k unfolding r by simp
qed (auto simp: fresh_def closed_def)

lemma fresh_update_text:
  "list_all (fresh n m) (map snd d) \<Longrightarrow>
   list_all (fresh n m) (map snd (AList.update k (VStr s) d))"
  by (induction d) (auto simp: fresh_def)

lemma take_update_above: "n \<le> b \<Longrightarrow> take n (h[b := x]) = take n h"
  by (simp add: take_update_cancel)

lemma closed_obj:
  "closed n h \<Longrightarrow> n \<le> a \<Longrightarrow> a < length h \<Longrightarrow>
   list_all (fresh n (length h)) (obj_vals (h ! a))"
  unfolding closed_def by blast

lemma closed_dict:
  "closed n h \<Longrightarrow> n \<le> a \<Longrightarrow> a < length h \<Longrightarrow> h ! a = ODict d \<Longrightarrow>
   list_all (fresh n (length h)) (map snd d)"
  using closed_obj[of n h a] by (simp add: obj_vals_def)

text \<open>The two statements of the loop body touch the upper part only.\<close>

lemma setdefault_properties_closed:
  assumes "closed n h" and "n \<le> a" and "a < length h" and "h ! a = ODict f"
    and "setdefault_properties h a f = (h1, props)"
  shows "closed n h1 \<and> length h \<le> length h1 \<and> take n h1 = take n h \<and> fresh n (length h1) props"
proof (cases "map_of f (ascii ''properties'')")
  case (Some p)
  with assms(5) have r: "h1 = h" "props = p" by (simp_all add: setdefault_properties_def)
  from Some have "p \<in> set (map snd f)" by (force dest: map_of_SomeD)
  moreover from assms(1-4) have "list_all (fresh n (length h)) (map snd f)"
    by (rule closed_dict)
  ultimately have "fresh n (length h) p" by (auto simp: list_all_iff)
  with assms(1) show ?thesis unfolding r by simp
next
  case None
  define X where "X = ODict (f @ [(ascii ''properties'', VRef (length h))])"
  from None assms(5) have r: "h1 = h[a := X] @ [ODict []]" "props = VRef (length h)"
    by (auto simp: setdefault_properties_def X_def)
  from assms(1) have nh: "n \<le> length h" by (simp add: closed_def)
  from assms(1-4) have fv: "list_all (fresh n (length h)) (map snd f)"
    by (rule closed_dict)
  have c1: "closed n (h @ [ODict []])"
    using assms(1) by (rule closed_alloc) (simp add: obj_vals_def)
  have "list_all (fresh n (Suc (length h))) (map snd f)"
    using fv by (rule list_all_fresh_mono) simp
  with nh have "list_all (fresh n (length (h @ [ODict []]))) (obj_vals X)"
    by (simp add: X_def obj_vals_def fresh_def)
  with c1 assms(2,3) have "closed n ((h @ [ODict []])[a := X])"
    by (intro closed_update) simp_all
  moreover have "(h @ [ODict []])[a := X] = h[a := X] @ [ODict []]"
    using assms(3) by (simp add: list_update_append1)
  ultimately have "closed n h1" unfolding r by simp
  moreover have "take n h1 = take n h"
    unfolding r using nh assms(2) by (simp add: take_update_above)
  ultimately show ?thesis using nh unfolding r by (simp add: fresh_def)
qed

lemma set_region_norm_closed:
  assumes "closed n h" and "fresh n (length h) props"
    and "set_region_norm L limit key h props = (h', res)"
  shows "closed n h' \<and> length h \<le> length h' \<and> take n h' = take n h"
proof (cases "\<exists>b d t. props = VRef b \<and> b < length h \<and> h ! b = ODict d \<and>
    h' = h[b := ODict (AList.update (ascii ''region_norm'') (VStr t) d)]")
  case True
  then obtain b d t where b: "props = VRef b" "b < length h" "h ! b = ODict d"
    and h': "h' = h[b := ODict (AList.update (ascii ''region_norm'') (VStr t) d)]"
    by blast
  from assms(2) b(1) have nb: "n \<le> b" by (simp add: fresh_def)
  from assms(1) nb b(2,3) have "list_all (fresh n (length h)) (map snd d)"
    by (rule closed_dict)
  then have "list_all (fresh n (length h))
      (obj_vals (ODict (AList.update (ascii ''region_norm'') (VStr t) d)))"
    by (simp add: obj_vals_def fresh_update_text)
  with assms(1) nb b(2) have "closed n h'" unfolding h' by (intro closed_update)
  with nb show ?thesis unfolding h' by (simp add: take_update_above)
next
  case False
  with assms(3) have "h' = h"
    by (auto simp: set_region_norm_def
        split: val.splits if_splits obj.splits option.splits sum.splits)
  with assms(1) show ?thesis by simp
qed

lemma annotate_object_closed:
  assumes "closed n h" and "fresh n (length h) feat"
    and "annotate_object L limit key h feat = (h', res)"
  shows "closed n h' \<and> length h \<le> length h' \<and> take n h' = take n h"
proof (cases "\<exists>a f. feat = VRef a \<and> a < length h \<and> h ! a = ODict f")
  case True
  then obtain a f where a: "feat = VRef a" "a < length h" "h ! a = ODict f" by blast
  obtain h1 props where s: "setdefault_properties h a f = (h1, props)"
    by (cases "setdefault_properties h a f")
  from assms(2) a(1) have na: "n \<le> a" by (simp add: fresh_def)
  from setdefault_properties_closed[OF assms(1) na a(2,3) s]
  have 1: "closed n h1" "length h \<le> length h1" "take n h1 = take n h" "fresh n (length h1) props"
    by simp_all
  from assms(3) a s have "set_region_norm L limit key h1 props = (h', res)"
    by (simp add: annotate_object_def)
  from set_region_norm_closed[OF 1(1) 1(4) this] 1(2,3) show ?thesis by simp
next
  case False
  with assms(3) have "h' = h"
    by (auto simp: annotate_object_def split: val.splits if_splits obj.splits)
  with assms(1) show ?thesis by simp
qed

lemma annotate_objects_closed:
  assumes "closed n h" and "list_all (fresh n (length h)) feats"
    and "annotate_objects L limit key h feats = (h', res)"
  shows "closed n h' \<and> length h \<le> length h' \<and> take n h' = take n h"
  using assms
proof (induction feats arbitrary: h)
  case Nil
  then show ?case by simp
next
  case (Cons feat feats)
  obtain h1 r1 where o: "annotate_object L limit key h feat = (h1, r1)"
    by (cases "annotate_object L limit key h feat")
  from Cons.prems(2) have ff: "fresh n (length h) feat" by simp
  from annotate_object_closed[OF Cons.prems(1) ff o]
  have 1: "closed n h1" "length h \<le> length h1" "take n h1 = take n h" by simp_all
  show ?case
  proof (cases r1)
    case None
    with Cons.prems(3) o have rest: "annotate_objects L limit key h1 feats = (h', res)" by simp
    from Cons.prems(2) 1(2) have "list_all (fresh n (length h1)) feats"
      by (auto intro: list_all_fresh_mono)
    from Cons.IH[OF 1(1) this rest] 1(2,3) show ?thesis by simp
  next
    case (Some e)
    with Cons.prems(3) o have "h' = h1" by simp
    with 1 show ?thesis by simp
  qed
qed

lemma features_of_fresh:
  assumes "closed n h" and "fresh n (length h) gj" and "features_of h gj = Inr feats"
  shows "list_all (fresh n (length h)) feats"
proof -
  from assms(3) obtain a g where a: "gj = VRef a" "a < length h" "h ! a = ODict g"
    by (auto simp: features_of_def split: val.splits if_splits obj.splits)
  from assms(2) a(1) have na: "n \<le> a" by (simp add: fresh_def)
  from assms(1) na a(2,3) have gv: "list_all (fresh n (length h)) (map snd g)"
    by (rule closed_dict)
  show ?thesis
  proof (cases "map_of g (ascii ''features'')")
    case None
    with assms(3) a show ?thesis by (simp add: features_of_def)
  next
    case (Some v)
    then have "v \<in> set (map snd g)" by (force dest: map_of_SomeD)
    with gv have fv: "fresh n (length h) v" by (auto simp: list_all_iff)
    show ?thesis
    proof (cases v)
      case (VRef b)
      with fv have b: "n \<le> b" "b < length h" by (simp_all add: fresh_def)
      from assms(1) b have bv: "list_all (fresh n (length h)) (obj_vals (h ! b))"
        by (rule closed_obj)
      show ?thesis
      proof (cases "h ! b")
        case (OList vs)
        with assms(3) a Some VRef b bv show ?thesis
          by (simp add: features_of_def obj_vals_def)
      next
        case (ODict d)
        with assms(3) a Some VRef b have "feats = map (\<lambda>(k, _). VStr k) d"
          by (simp add: features_of_def)
        then show ?thesis by (auto simp: list_all_iff fresh_def split_def)
      qed
    next
      case (VStr s)
      with assms(3) a Some have "feats = map (\<lambda>c. VStr [c]) s"
        by (simp add: features_of_def)
      then show ?thesis by (simp add: list_all_iff fresh_def)
    qed (use assms(3) a Some in \<open>simp_all add: features_of_def\<close>)
  qed
qed

text \<open>A value that can be read in a store reads the same in every extension of it.\<close>

lemma those_Some_all: "those xs = Some ys \<Longrightarrow> \<forall>x\<in>set xs. x \<noteq> None"
  by (induction xs arbitrary: ys) (auto split: option.splits)

lemma value_of_extend:
  assumes "take (length h) h' = h"
  shows "value_of n h v = Some j \<Longrightarrow> value_of n h' v = Some j"
proof (induction n arbitrary: v j)
  case 0
  then show ?case by (cases v) simp_all
next
  case (Suc n)
  show ?case
  proof (cases v)
    case (VRef a)
    with Suc.prems have a: "a < length h" by (simp split: if_splits)
    from assms have "length (take (length h) h') = length h" by simp
    then have len: "length h \<le> length h'" by simp
    from a have "take (length h) h' ! a = h' ! a" by (rule nth_take)
    with assms have same: "h' ! a = h ! a" by simp
    have eq: "value_of n h' w = value_of n h w" if "value_of n h w \<noteq> None" for w
      using that Suc.IH[of w] by auto
    show ?thesis
    proof (cases "h ! a")
      case (OList vs)
      with Suc.prems VRef a obtain js where js: "those (map (value_of n h) vs) = Some js"
        by (auto split: if_splits)
      then have "\<forall>w\<in>set vs. value_of n h w \<noteq> None"
        using those_Some_all by fastforce
      then have m: "map (value_of n h') vs = map (value_of n h) vs"
        by (intro map_cong) (simp_all add: eq)
      from Suc.prems VRef a len same OList show ?thesis by (simp add: m)
    next
      case (ODict d)
      let ?f = "\<lambda>h (k, v). map_option (Pair k) (value_of n h v)"
      from Suc.prems VRef a ODict obtain e where e: "those (map (?f h) d) = Some e"
        by (auto split: if_splits)
      then have "\<forall>kv\<in>set d. ?f h kv \<noteq> None"
        using those_Some_all by fastforce
      then have "\<forall>kv\<in>set d. value_of n h (snd kv) \<noteq> None"
        by (auto simp: split_def)
      then have m: "map (?f h') d = map (?f h) d"
        by (intro map_cong) (auto simp: eq split_def)
      from Suc.prems VRef a len same ODict show ?thesis by (simp add: m)
    qed
  qed (use Suc.prems in simp_all)
qed

lemma geojson_with_norm_names_store_prefix:
  "take (length h) (fst (geojson_with_norm_names_store L limit h geojson)) = h"
proof (cases "value_of limit h geojson")
  case None
  then show ?thesis by (simp add: geojson_with_norm_names_store_def)
next
  case (Some j)
  obtain h1 gj where l: "json_loads h j = (h1, gj)" by (cases "json_loads h j")
  have c0: "closed (length h) h" by (auto simp: closed_def)
  from json_loads_extends(1)[OF l c0]
  have 1: "length h \<le> length h1" "take (length h) h1 = h" "closed (length h) h1"
      "fresh (length h) (length h1) gj" by simp_all
  show ?thesis
  proof (cases "guess_geojson_region_key j")
    case (Inl e)
    with Some l 1 show ?thesis by (simp add: geojson_with_norm_names_store_def)
  next
    case (Inr key)
    show ?thesis
    proof (cases "features_of h1 gj")
      case (Inl e)
      with Some l Inr 1 show ?thesis by (simp add: geojson_with_norm_names_store_def)
    next
      case feats: (Inr feats)
      obtain h2 res where o: "annotate_objects L limit key h1 feats = (h2, res)"
        by (cases "annotate_objects L limit key h1 feats")
      from features_of_fresh[OF 1(3,4) feats]
      have "list_all (fresh (length h) (length h1)) feats" .
      from annotate_objects_closed[OF 1(3) this o] 1(2)
      have "take (length h) h2 = h" by simp
      moreover have "fst (geojson_with_norm_names_store L limit h geojson) = h2"
        using Some l Inr feats o
        by (simp add: geojson_with_norm_names_store_def split: option.splits)
      ultimately show ?thesis by simp
    qed
  qed
qed

text \<open>
  C6. Whatever \<open>geojson_with_norm_names\<close> does (return, or raise at any point), every
  object that existed in the store before the call is unchanged after it, so the value
  of the caller's structure is the same before and after: the function writes to the
  objects of its copy only.
\<close>

theorem geojson_with_norm_names_store_frame:
  "take (length h) (fst (geojson_with_norm_names_store L limit h geojson)) = h \<and>
   (\<forall>n j. value_of n h geojson = Some j \<longrightarrow>
      value_of n (fst (geojson_with_norm_names_store L limit h geojson)) geojson = Some j)"
  using geojson_with_norm_names_store_prefix[of h L limit geojson]
  by (auto intro: value_of_extend)

theorem geojson_with_norm_names_store_frame_witness:
  "value_of (Suc (Suc (Suc (Suc 0)))) store_bretagne (VRef 3) = Some geo_bretagne \<and>
   geojson_with_norm_names_store cpython_fragment (Suc (Suc (Suc (Suc 0)))) store_bretagne (VRef 3) =
     (store_bretagne_annotated, Inr (VRef 7, ascii ''NOM'')) \<and>
   value_of (Suc (Suc (Suc (Suc 0)))) store_bretagne_annotated (VRef 3) = Some geo_bretagne \<and>
   value_of (Suc (Suc (Suc (Suc 0)))) store_bretagne_annotated (VRef 7) = Some geo_bretagne_annotated"
proof -
  let ?n = "Suc (Suc (Suc (Suc 0)))"
  have v: "value_of ?n store_bretagne (VRef 3) = Some geo_bretagne"
    by (simp add: store_bretagne_def geo_bretagne_def collection_def)
  have k: "guess_geojson_region_key geo_bretagne = Inr (ascii ''NOM'')"
    by (simp add: geo_bretagne_def geo_defs)
  define h1 where "h1 = store_bretagne @
        [ODict [(ascii ''NOM'', VStr (ascii ''Bretagne''))],
         ODict [(ascii ''properties'', VRef 4)],
         OList [VRef 5],
         ODict [(ascii ''features'', VRef 6)]]"
  have l: "json_loads store_bretagne geo_bretagne = (h1, VRef 7)"
    by (simp add: h1_def store_bretagne_def geo_bretagne_def collection_def)
  have f: "features_of h1 (VRef 7) = Inr [VRef 5]"
    by (simp add: h1_def store_bretagne_def features_of_def ascii_def)
  have n: "norm_str cpython_fragment (JStr (ascii ''Bretagne'')) = Inr (ascii ''bretagne'')"
    by (simp add: fragment_defs)
  have o: "annotate_object cpython_fragment ?n (ascii ''NOM'') h1 (VRef 5) =
           (store_bretagne_annotated, None)"
    using n
    by (simp add: h1_def store_bretagne_def store_bretagne_annotated_def annotate_object_def
        setdefault_properties_def set_region_norm_def ascii_def)
  have r: "geojson_with_norm_names_store cpython_fragment ?n store_bretagne (VRef 3) =
           (store_bretagne_annotated, Inr (VRef 7, ascii ''NOM''))"
    unfolding geojson_with_norm_names_store_def v by (simp add: l k f o)
  have a: "value_of ?n store_bretagne_annotated (VRef 7) = Some geo_bretagne_annotated"
    by (simp add: store_bretagne_def store_bretagne_annotated_def geo_bretagne_annotated_def
        collection_def)
  from geojson_with_norm_names_store_frame[of store_bretagne cpython_fragment ?n "VRef 3"] v
  have "value_of ?n (fst (geojson_with_norm_names_store cpython_fragment ?n store_bretagne (VRef 3)))
          (VRef 3) = Some geo_bretagne"
    by blast
  with r v a show ?thesis by simp
qed

subsection \<open>\<open>load_data\<close>\<close>

lemma astype_Int64_column_length:
  "astype_Int64_column xs = Inr ys \<Longrightarrow> length ys = length xs"
  by (induction xs arbitrary: ys) (auto split: sum.splits)

lemma filter_map2_left:
  "map g (filter P (map2 f xs ys)) =
   map (\<lambda>(x, y). g (f x y)) (filter (\<lambda>(x, y). P (f x y)) (zip xs ys))"
  by (induction xs ys rule: list_induct2') simp_all

lemma map_filter_zip_left:
  assumes "length ys = length xs"
  shows "map (\<lambda>(x, y). g x) (filter (\<lambda>(x, y). Q x) (zip xs ys)) = map g (filter Q xs)"
  using assms
proof (induction xs arbitrary: ys)
  case Nil
  then show ?case by simp
next
  case (Cons x xs)
  then obtain y ys' where "ys = y # ys'" by (cases ys) auto
  with Cons show ?case by simp
qed

lemma map_norm_str_length:
  "map_norm_str L vs = Inr ts \<Longrightarrow> length ts = length vs"
  by (induction vs arbitrary: ts) (auto split: sum.splits)

lemma map_map2_left:
  assumes "length ys = length xs" and "\<And>x y. g (f x y) = g x"
  shows "map g (map2 f xs ys) = map g xs"
  using assms(1)
proof (induction xs arbitrary: ys)
  case Nil
  then show ?case by simp
next
  case (Cons x xs)
  then obtain y ys' where "ys = y # ys'" by (cases ys) auto
  with Cons assms(2) show ?case by simp
qed

text \<open>
  C8. When the parsed table has the columns \<open>nombre\<close> and \<open>insee_pop\<close> and \<open>load_data\<close>
  returns, every row of the result has a count and a population that are not null, and
  the rows are exactly the rows of the file whose two measures are not null after the
  numeric coercion, in their order and with their coerced values: the other rows are
  left out, not given a zero.
\<close>

theorem load_data_drops_nulls:
  assumes "fs (case data_path of None \<Rightarrow> default_path | Some q \<Rightarrow> q) = Some (Inr csv)"
    and "''nombre'' \<in> set (columns csv)" and "''insee_pop'' \<in> set (columns csv)"
    and "load_data L fs default_path data_path = Inr df"
  shows "(\<forall>r\<in>set (rows df). nombre r \<noteq> None \<and> insee_pop r \<noteq> None) \<and>
     map (\<lambda>r. (nombre r, insee_pop r)) (rows df) =
     map (\<lambda>r. (to_numeric L (csv_nombre r), to_numeric L (csv_insee_pop r)))
       (filter (\<lambda>r. to_numeric L (csv_nombre r) \<noteq> None \<and> to_numeric L (csv_insee_pop r) \<noteq> None)
          (rows csv))"
proof -
  define mk where "mk = (\<lambda>(r::csv_row) y.
      \<lparr> nom_region = csv_nom_region r, nom_region_norm = csv_nom_region_norm r, annee = y,
        nombre = to_numeric L (csv_nombre r), insee_pop = to_numeric L (csv_insee_pop r) \<rparr>)"
  define keep where "keep = (\<lambda>r::row. nombre r \<noteq> None \<and> insee_pop r \<noteq> None)"
  define norm where "norm = (\<lambda>(r::row) t. r\<lparr>nom_region_norm := Some t\<rparr>)"
  from assms obtain years where
    years: "(if ''annee'' \<in> set (columns csv)
             then astype_Int64_column (map (\<lambda>r. to_numeric L (csv_annee r)) (rows csv))
             else Inr (map (\<lambda>r. None) (rows csv))) = Inr years"
    and out: "''nom_region'' \<notin> set (columns csv) \<and>
                rows df = filter keep (map2 mk (rows csv) years) \<or>
              (\<exists>norms. map_norm_str L (map (\<lambda>r. region_cell (nom_region r))
                           (filter keep (map2 mk (rows csv) years))) = Inr norms \<and>
                 rows df = map2 norm (filter keep (map2 mk (rows csv) years)) norms)"
    by (auto simp: load_data_def Let_def mk_def keep_def norm_def split: sum.splits if_splits)
  have len: "length years = length (rows csv)"
    using years by (auto split: if_splits dest: astype_Int64_column_length)
  have m: "map (\<lambda>r. (nombre r, insee_pop r)) (rows df) =
           map (\<lambda>r. (nombre r, insee_pop r)) (filter keep (map2 mk (rows csv) years))"
  proof -
    have "map (\<lambda>r. (nombre r, insee_pop r)) (map2 norm rs norms) =
          map (\<lambda>r. (nombre r, insee_pop r)) rs"
      if "map_norm_str L (map (\<lambda>r. region_cell (nom_region r)) rs) = Inr norms" for rs norms
    proof -
      from map_norm_str_length[OF that] have "length norms = length rs" by simp
      then show ?thesis by (rule map_map2_left) (simp add: norm_def)
    qed
    with out show ?thesis by auto
  qed
  have "map (\<lambda>r. (nombre r, insee_pop r)) (filter keep (map2 mk (rows csv) years)) =
        map (\<lambda>(r, y). (to_numeric L (csv_nombre r), to_numeric L (csv_insee_pop r)))
          (filter (\<lambda>(r, y). to_numeric L (csv_nombre r) \<noteq> None \<and>
                             to_numeric L (csv_insee_pop r) \<noteq> None) (zip (rows csv) years))"
    unfolding filter_map2_left by (simp add: mk_def keep_def)
  also have "\<dots> = map (\<lambda>r. (to_numeric L (csv_nombre r), to_numeric L (csv_insee_pop r)))
       (filter (\<lambda>r. to_numeric L (csv_nombre r) \<noteq> None \<and> to_numeric L (csv_insee_pop r) \<noteq> None)
          (rows csv))"
    using len by (rule map_filter_zip_left)
  finally have eq: "map (\<lambda>r. (nombre r, insee_pop r)) (rows df) =
     map (\<lambda>r. (to_numeric L (csv_nombre r), to_numeric L (csv_insee_pop r)))
       (filter (\<lambda>r. to_numeric L (csv_nombre r) \<noteq> None \<and> to_numeric L (csv_insee_pop r) \<noteq> None)
          (rows csv))"
    using m by simp
  have "keep r" if r: "r \<in> set (rows df)" for r
    using out
  proof
    assume "''nom_region'' \<notin> set (columns csv) \<and>
            rows df = filter keep (map2 mk (rows csv) years)"
    with r show ?thesis by simp
  next
    assume "\<exists>norms. map_norm_str L (map (\<lambda>r. region_cell (nom_region r))
                       (filter keep (map2 mk (rows csv) years))) = Inr norms \<and>
              rows df = map2 norm (filter keep (map2 mk (rows csv) years)) norms"
    then obtain norms where
      "rows df = map2 norm (filter keep (map2 mk (rows csv) years)) norms" by blast
    with r obtain r0 t where z: "(r0, t) \<in> set (zip (filter keep (map2 mk (rows csv) years)) norms)"
      and n: "r = norm r0 t" by auto
    from z have "r0 \<in> set (filter keep (map2 mk (rows csv) years))" by (rule set_zip_leftD)
    then have "keep r0" by simp
    then show ?thesis unfolding n by (simp add: keep_def norm_def)
  qed
  with eq show ?thesis by (simp add: keep_def)
qed

theorem load_data_drops_nulls_witness:
  "fs_sample (case None of None \<Rightarrow> ''Data/communes_clean.csv'' | Some q \<Rightarrow> q) = Some (Inr csv_sample) \<and>
   ''nombre'' \<in> set (columns csv_sample) \<and> ''insee_pop'' \<in> set (columns csv_sample) \<and>
   load_data cpython_fragment fs_sample ''Data/communes_clean.csv'' None = Inr df_sample \<and>
   map (\<lambda>r. (nombre r, insee_pop r)) (rows df_sample) = [(Some 12, Some 1000)] \<and>
   length (rows csv_sample) = 3"
proof -
  have 1: "fs_sample (case None of None \<Rightarrow> ''Data/communes_clean.csv'' | Some q \<Rightarrow> q) =
           Some (Inr csv_sample)"
    by (simp add: fs_sample_def)
  have 2: "''nombre'' \<in> set (columns csv_sample)" and 3: "''insee_pop'' \<in> set (columns csv_sample)"
    by (simp_all add: csv_sample_def)
  have n: "norm_str cpython_fragment (JStr (ascii ''Bretagne'')) = Inr (ascii ''bretagne'')"
    by (simp add: fragment_defs)
  have t: "to_number cpython_fragment (ascii ''12'') = Some 12"
      "to_number cpython_fragment (ascii ''ND'') = None"
    by (simp_all add: cpython_fragment_def number_fragment_def ascii_def)
  have 4: "load_data cpython_fragment fs_sample ''Data/communes_clean.csv'' None = Inr df_sample"
    using n t
    by (simp add: load_data_def fs_sample_def csv_sample_def df_sample_def to_numeric_def
        astype_Int64_def region_cell_def Let_def)
  from load_data_drops_nulls[OF 1 2 3 4] 1 2 3 4 show ?thesis
    by (simp add: csv_sample_def df_sample_def)
qed

subsection \<open>\<open>build_region_metrics\<close>\<close>

lemma bit_length_numeral:
  "bit_length (numeral k) = Suc (bit_length (numeral k div 2))"
  "bit_length 0 = 0"
  "bit_length (Suc 0) = Suc 0"
  by (simp_all add: bit_length.simps[of "numeral k"] bit_length.simps[of 0]
      bit_length.simps[of "Suc 0"])

lemma floor_rat_numeral:
  "\<lfloor>(numeral a :: rat) / numeral b\<rfloor> = numeral a div numeral b"
  "\<lfloor>- (numeral a :: rat) / numeral b\<rfloor> = - numeral a div numeral b"
  "\<lfloor>- ((numeral a :: rat) / numeral b)\<rfloor> = - numeral a div numeral b"
  using floor_divide_of_int_eq[of "numeral a" "numeral b", where ?'a = rat]
    floor_divide_of_int_eq[of "- numeral a" "numeral b", where ?'a = rat]
  by simp_all

lemmas float_defs =
  cpython_fragment_def round_float64_def binade_def scale2_def round_half_even_def Let_def
  bit_length_numeral floor_rat_numeral

lemmas metrics_defs =
  build_region_metrics_def required_def group_keys_def group_key_def List.map_filter_def
  group_row_def group_sum_def wrap64_def int_cell_def true_divide_def float_sub_def fillna0_def
  table_row_def group_def int64_table_def float64_table_def ascii_def

lemma length_group_diff: "length (group_diff L prev xs) = length xs"
  by (induction xs arbitrary: prev) auto

lemma set_group_keys:
  "set (group_keys rs) = {k. \<exists>r\<in>set rs. group_key r = Some k}"
  by (force simp: group_keys_def List.map_filter_def)

lemma distinct_group_keys: "distinct (group_keys rs)"
  by (simp add: group_keys_def)

lemma map_filter_id: "List.map_filter (\<lambda>x. x) xs = map the (filter (\<lambda>x. x \<noteq> None) xs)"
  by (induction xs) (auto simp: List.map_filter_def)

lemma build_region_metrics_result:
  assumes "set required \<subseteq> set (columns df)"
  shows "build_region_metrics L df =
     Inr (map2 (\<lambda>m v. m\<lparr>variation_region := v\<rparr>) (sorted_groups L df) (variations L df))"
proof -
  from assms have "filter (\<lambda>c. c \<notin> set (columns df)) required = []"
    by (auto simp: filter_empty_conv)
  then show ?thesis
    by (simp add: build_region_metrics_def Let_def sorted_groups_def variations_def)
qed

lemma length_variations: "length (variations L df) = length (sorted_groups L df)"
  by (simp add: variations_def length_group_diff)

lemma build_region_metrics_nth:
  assumes "set required \<subseteq> set (columns df)" and "build_region_metrics L df = Inr g"
  shows "length g = length (sorted_groups L df)"
    and "i < length g \<Longrightarrow>
         g ! i = (sorted_groups L df ! i)\<lparr>variation_region := variations L df ! i\<rparr>"
proof -
  from assms build_region_metrics_result[OF assms(1), of L]
  have g: "g = map2 (\<lambda>m v. m\<lparr>variation_region := v\<rparr>) (sorted_groups L df) (variations L df)"
    by simp
  show "length g = length (sorted_groups L df)"
    unfolding g by (simp add: length_variations)
  show "g ! i = (sorted_groups L df ! i)\<lparr>variation_region := variations L df ! i\<rparr>"
    if "i < length g"
    using that unfolding g by (simp add: length_variations)
qed

lemma sorted_groups_member:
  assumes "m \<in> set (sorted_groups L df)"
  shows "\<exists>k\<in>set (group_keys (rows df)). m = group_row L df k"
  using assms by (auto simp: sorted_groups_def)

text \<open>The sums of the group with the key \<open>k\<close>, written with \<open>sum_list\<close>.\<close>

lemma group_sum_eq:
  "group_sum L is_int64 xs =
     (if is_int64 then of_int (wrap64 (\<Sum>x\<leftarrow>xs. int_cell x))
      else float_sum L (map the (filter (\<lambda>x. x \<noteq> None) xs)))"
  by (simp add: group_sum_def map_filter_id)

lemma group_row_fields:
  "g_nom_region (group_row L df (a, b, y)) = a"
  "g_nom_region_norm (group_row L df (a, b, y)) = b"
  "g_annee (group_row L df (a, b, y)) = y"
  "nb_region (group_row L df k) =
     group_sum L (''nombre'' \<in> set (int64_columns df))
       (map nombre (filter (\<lambda>r. group_key r = Some k) (rows df)))"
  "pop_region (group_row L df k) =
     (if group_sum L (''insee_pop'' \<in> set (int64_columns df))
           (map insee_pop (filter (\<lambda>r. group_key r = Some k) (rows df))) = 0
      then None
      else Some (group_sum L (''insee_pop'' \<in> set (int64_columns df))
             (map insee_pop (filter (\<lambda>r. group_key r = Some k) (rows df)))))"
  by (simp_all add: group_row_def Let_def split: prod.splits)

lemma group_row_rate:
  "taux_region_pour_mille (group_row L df k) =
     (if group_sum L (''insee_pop'' \<in> set (int64_columns df))
           (map insee_pop (filter (\<lambda>r. group_key r = Some k) (rows df))) = 0
      then None
      else Some (float64 L (1000 *
             true_divide L
               (''nombre'' \<in> set (int64_columns df) \<and> ''insee_pop'' \<in> set (int64_columns df) \<and>
                (\<exists>k'\<in>set (group_keys (rows df)). pop_region (group_row L df k') = None))
               (''nombre'' \<in> set (int64_columns df)) (''insee_pop'' \<in> set (int64_columns df))
               (group_sum L (''nombre'' \<in> set (int64_columns df))
                  (map nombre (filter (\<lambda>r. group_key r = Some k) (rows df))))
               (group_sum L (''insee_pop'' \<in> set (int64_columns df))
                  (map insee_pop (filter (\<lambda>r. group_key r = Some k) (rows df)))))))"
proof -
  have "list_ex (\<lambda>k'. group_sum L (''insee_pop'' \<in> set (int64_columns df))
            (map insee_pop (filter (\<lambda>r. group_key r = Some k') (rows df))) = 0)
          (group_keys (rows df)) \<longleftrightarrow>
        (\<exists>k'\<in>set (group_keys (rows df)). pop_region (group_row L df k') = None)"
    by (simp add: list_ex_iff group_row_fields)
  then show ?thesis
    by (simp add: group_row_def Let_def split: prod.splits)
qed

lemma group_row_key:
  "(g_nom_region (group_row L df k), g_nom_region_norm (group_row L df k),
    g_annee (group_row L df k)) = k"
  by (cases k) (simp add: group_row_fields)

lemma wrap64_in_range:
  assumes "- (2 ^ 63) \<le> i" and "i < 2 ^ 63"
  shows "wrap64 i = i"
proof -
  from assms have "0 \<le> i + 2 ^ 63" and "i + 2 ^ 63 < 2 ^ 64" by simp_all
  then have "(i + 2 ^ 63) mod 2 ^ 64 = i + 2 ^ 63" by (rule mod_pos_pos_trivial)
  then show ?thesis by (simp add: wrap64_def)
qed

text \<open>
  C1, as stated, fails. The two counts of \<open>df_wrap\<close> are \<open>2 ** 62\<close> each, in an \<open>int64\<close>
  column. Their sum is \<open>2 ** 63\<close>, but the sum that \<open>build_region_metrics\<close> computes wraps
  around to \<open>-2 ** 63\<close>, and the rate of the group is \<open>-2 ** 63\<close> for a population of 1000,
  not 1000 times \<open>2 ** 63\<close> divided by 1000.
\<close>

theorem build_region_metrics_rate_counterexample:
  "build_region_metrics cpython_fragment df_wrap =
     Inr [group ''A'' ''a'' 2020 (- (2 ^ 63)) (Some 1000) (Some (- (2 ^ 63))) 0] \<and>
   sum_list (map int_cell (map nombre (rows df_wrap))) = 2 ^ 63 \<and>
   sum_list (map int_cell (map insee_pop (rows df_wrap))) = 1000"
proof -
  have 1: "build_region_metrics cpython_fragment df_wrap =
     Inr [group ''A'' ''a'' 2020 (- (2 ^ 63)) (Some 1000) (Some (- (2 ^ 63))) 0]"
    by (simp add: df_wrap_def metrics_defs float_defs)
  have 2: "sum_list (map int_cell (map nombre (rows df_wrap))) = 2 ^ 63"
    "sum_list (map int_cell (map insee_pop (rows df_wrap))) = 1000"
    by (simp_all add: df_wrap_def int64_table_def table_row_def int_cell_def)
  from 1 2 show ?thesis by simp
qed

text \<open>
  C1, amended. For every table that has the required columns, \<open>build_region_metrics\<close>
  returns (it raises nothing, whatever the populations are), with exactly one group for
  every key (region name, normalized key, year) that occurs in the table. The count and
  the population of a group are the sums of the counts and of the populations of its
  rows as the dtype of the column computes them: in an \<open>int64\<close> column the sum modulo
  \<open>2 ** 64\<close>, which is the sum itself when that lies in the range of \<open>int64\<close>; in a
  \<open>float64\<close> column the floating-point sum of the values that are not missing. The rate is
  null when that summed population is zero; otherwise it is 1000 times the quotient of
  the summed count by the summed population, the quotient and the product each rounded
  to a \<open>float64\<close> (and an \<open>int64\<close> sum rounded to a \<open>float64\<close> before the division, unless both
  columns are \<open>int64\<close> and some group of the table has a null population).
\<close>

theorem build_region_metrics_rate:
  assumes "set required \<subseteq> set (columns df)"
  shows "\<exists>g. build_region_metrics L df = Inr g \<and>
     distinct (map (\<lambda>m. (g_nom_region m, g_nom_region_norm m, g_annee m)) g) \<and>
     set (map (\<lambda>m. (g_nom_region m, g_nom_region_norm m, g_annee m)) g) =
       {k. \<exists>r\<in>set (rows df). group_key r = Some k} \<and>
     (\<forall>m\<in>set g.
        let nb_int64 = ''nombre'' \<in> set (int64_columns df);
            pop_int64 = ''insee_pop'' \<in> set (int64_columns df);
            counts = map nombre (members df m);
            pops = map insee_pop (members df m);
            nb = (if nb_int64 then of_int (wrap64 (\<Sum>x\<leftarrow>counts. int_cell x))
                  else float_sum L (map the (filter (\<lambda>x. x \<noteq> None) counts)));
            pop = (if pop_int64 then of_int (wrap64 (\<Sum>x\<leftarrow>pops. int_cell x))
                   else float_sum L (map the (filter (\<lambda>x. x \<noteq> None) pops)));
            python_ints = (nb_int64 \<and> pop_int64 \<and> (\<exists>m'\<in>set g. pop_region m' = None));
            quotient = (if python_ints then float64 L (nb / pop)
                        else float64 L ((if nb_int64 then float64 L nb else nb) /
                                        (if pop_int64 then float64 L pop else pop)))
        in nb_region m = nb \<and>
           pop_region m = (if pop = 0 then None else Some pop) \<and>
           taux_region_pour_mille m =
             (if pop = 0 then None else Some (float64 L (1000 * quotient))) \<and>
           (nb_int64 \<and> - (2 ^ 63) \<le> (\<Sum>x\<leftarrow>counts. int_cell x) \<and>
              (\<Sum>x\<leftarrow>counts. int_cell x) < 2 ^ 63 \<longrightarrow>
              nb_region m = of_int (\<Sum>x\<leftarrow>counts. int_cell x)) \<and>
           (pop_int64 \<and> - (2 ^ 63) \<le> (\<Sum>x\<leftarrow>pops. int_cell x) \<and>
              (\<Sum>x\<leftarrow>pops. int_cell x) < 2 ^ 63 \<longrightarrow>
              pop = of_int (\<Sum>x\<leftarrow>pops. int_cell x)))"
proof -
  let ?key = "\<lambda>m. (g_nom_region m, g_nom_region_norm m, g_annee m)"
  define g where "g = map2 (\<lambda>m v. m\<lparr>variation_region := v\<rparr>)
                        (sorted_groups L df) (variations L df)"
  have res: "build_region_metrics L df = Inr g"
    unfolding g_def using assms by (rule build_region_metrics_result)
  have keys: "map ?key g = map ?key (sorted_groups L df)"
    unfolding g_def using length_variations[of L df]
    by (intro nth_equalityI) simp_all
  have pops: "map pop_region g = map pop_region (sorted_groups L df)"
    unfolding g_def using length_variations[of L df]
    by (intro nth_equalityI) simp_all
  have "inj_on (group_row L df) (set (group_keys (rows df)))"
    by (rule inj_onI) (metis group_row_key)
  then have ds: "distinct (sorted_groups L df)"
    unfolding sorted_groups_def by (simp add: distinct_map distinct_group_keys)
  have "inj_on ?key (set (sorted_groups L df))"
  proof (rule inj_onI)
    fix m m'
    assume "m \<in> set (sorted_groups L df)" "m' \<in> set (sorted_groups L df)"
      and e: "?key m = ?key m'"
    then obtain k k' where "m = group_row L df k" "m' = group_row L df k'"
      using sorted_groups_member by blast
    with e show "m = m'" by (simp add: group_row_key)
  qed
  with ds have 0: "distinct (map ?key g)"
    unfolding keys by (simp add: distinct_map)
  have "set (map ?key (sorted_groups L df)) = (\<lambda>k. k) ` set (group_keys (rows df))"
    by (simp add: sorted_groups_def image_image group_row_key)
  with keys have 1: "set (map ?key g) = {k. \<exists>r\<in>set (rows df). group_key r = Some k}"
    by (simp add: set_group_keys)
  have "pop_region ` set g = pop_region ` set (sorted_groups L df)"
    using arg_cong[OF pops, of set] by simp
  also have "\<dots> = (\<lambda>k. pop_region (group_row L df k)) ` set (group_keys (rows df))"
    by (simp add: sorted_groups_def image_image)
  finally have "(\<exists>m'\<in>set g. pop_region m' = None) \<longleftrightarrow>
      (\<exists>k'\<in>set (group_keys (rows df)). pop_region (group_row L df k') = None)"
    by (metis (mono_tags, lifting) image_iff)
  moreover define has_na where
    "has_na \<longleftrightarrow> (\<exists>k'\<in>set (group_keys (rows df)). pop_region (group_row L df k') = None)"
  ultimately have na: "(\<exists>m'\<in>set g. pop_region m' = None) \<longleftrightarrow> has_na" by simp
  have 2: "let nb_int64 = ''nombre'' \<in> set (int64_columns df);
            pop_int64 = ''insee_pop'' \<in> set (int64_columns df);
            counts = map nombre (members df m);
            pops = map insee_pop (members df m);
            nb = (if nb_int64 then of_int (wrap64 (\<Sum>x\<leftarrow>counts. int_cell x))
                  else float_sum L (map the (filter (\<lambda>x. x \<noteq> None) counts)));
            pop = (if pop_int64 then of_int (wrap64 (\<Sum>x\<leftarrow>pops. int_cell x))
                   else float_sum L (map the (filter (\<lambda>x. x \<noteq> None) pops)));
            python_ints = (nb_int64 \<and> pop_int64 \<and> (\<exists>m'\<in>set g. pop_region m' = None));
            quotient = (if python_ints then float64 L (nb / pop)
                        else float64 L ((if nb_int64 then float64 L nb else nb) /
                                        (if pop_int64 then float64 L pop else pop)))
        in nb_region m = nb \<and>
           pop_region m = (if pop = 0 then None else Some pop) \<and>
           taux_region_pour_mille m =
             (if pop = 0 then None else Some (float64 L (1000 * quotient))) \<and>
           (nb_int64 \<and> - (2 ^ 63) \<le> (\<Sum>x\<leftarrow>counts. int_cell x) \<and>
              (\<Sum>x\<leftarrow>counts. int_cell x) < 2 ^ 63 \<longrightarrow>
              nb_region m = of_int (\<Sum>x\<leftarrow>counts. int_cell x)) \<and>
           (pop_int64 \<and> - (2 ^ 63) \<le> (\<Sum>x\<leftarrow>pops. int_cell x) \<and>
              (\<Sum>x\<leftarrow>pops. int_cell x) < 2 ^ 63 \<longrightarrow>
              pop = of_int (\<Sum>x\<leftarrow>pops. int_cell x))" if "m \<in> set g" for m
  proof -
    from that obtain m0 v where m0: "m0 \<in> set (sorted_groups L df)"
      and m: "m = m0\<lparr>variation_region := v\<rparr>"
      unfolding g_def by (auto simp: set_zip in_set_conv_nth)
    from sorted_groups_member[OF m0] obtain k where k: "m0 = group_row L df k" by blast
    have mem: "members df m = filter (\<lambda>r. group_key r = Some k) (rows df)"
      using group_row_key[of L df k] by (simp add: members_def m k)
    have f: "nb_region m = nb_region (group_row L df k)"
      "pop_region m = pop_region (group_row L df k)"
      "taux_region_pour_mille m = taux_region_pour_mille (group_row L df k)"
      by (simp_all add: m k)
    note rate = group_row_rate[of L df k, folded has_na_def]
    show ?thesis
      unfolding f rate group_row_fields na mem[symmetric]
      by (simp add: Let_def group_sum_eq true_divide_def wrap64_in_range)
  qed
  from res 0 1 2 show ?thesis by blast
qed

text \<open>On \<open>df_sums\<close>, whose columns are \<open>int64\<close>: the group of region \<open>A\<close> in 2020 has two
  rows, with the counts 10 and 5 and the populations 1000 and 1000, and the rate
  \<open>1000 * (15 / 2000) = 7.5\<close>; the populations of region \<open>A\<close> in 2021 are 0 and 0, and its
  rate is null. On \<open>df_missing\<close>, whose columns are \<open>float64\<close>, the missing count is
  skipped.\<close>

theorem build_region_metrics_rate_witness:
  "build_region_metrics cpython_fragment df_sums =
     Inr [group ''A'' ''a'' 2020 15 (Some 2000) (Some (15 / 2)) 0,
          group ''A'' ''a'' 2021 8 None None 0,
          group ''B'' ''b'' 2020 3 (Some 300) (Some 10) 0] \<and>
   map nombre (members df_sums (group ''A'' ''a'' 2020 15 (Some 2000) (Some (15 / 2)) 0)) =
     [Some 10, Some 5] \<and>
   map insee_pop (members df_sums (group ''A'' ''a'' 2020 15 (Some 2000) (Some (15 / 2)) 0)) =
     [Some 1000, Some 1000] \<and>
   nb_region (group ''A'' ''a'' 2020 15 (Some 2000) (Some (15 / 2)) 0) = 10 + 5 \<and>
   pop_region (group ''A'' ''a'' 2020 15 (Some 2000) (Some (15 / 2)) 0) = Some (1000 + 1000) \<and>
   taux_region_pour_mille (group ''A'' ''a'' 2020 15 (Some 2000) (Some (15 / 2)) 0) =
     Some (round_float64 (1000 * round_float64 (15 / 2000))) \<and>
   map insee_pop (members df_sums (group ''A'' ''a'' 2021 8 None None 0)) = [Some 0, Some 0] \<and>
   taux_region_pour_mille (group ''A'' ''a'' 2021 8 None None 0) = None \<and>
   build_region_metrics cpython_fragment df_missing =
     Inr [group ''A'' ''a'' 2020 10 (Some 2000) (Some 5) 0]"
proof -
  let ?a = "group ''A'' ''a'' 2020 15 (Some 2000) (Some (15 / 2)) 0"
  let ?z = "group ''A'' ''a'' 2021 8 None None 0"
  let ?b = "group ''B'' ''b'' 2020 3 (Some 300) (Some 10) 0"
  have c: "set required \<subseteq> set (columns df_sums)"
    by (simp add: df_sums_def int64_table_def)
  have e: "build_region_metrics cpython_fragment df_sums = Inr [?a, ?z, ?b]"
    by (simp add: df_sums_def metrics_defs float_defs)
  have f: "build_region_metrics cpython_fragment df_missing =
     Inr [group ''A'' ''a'' 2020 10 (Some 2000) (Some 5) 0]"
    by (simp add: df_missing_def metrics_defs float_defs)
  have i: "''nombre'' \<in> set (int64_columns df_sums)" "''insee_pop'' \<in> set (int64_columns df_sums)"
    by (simp_all add: df_sums_def int64_table_def)
  have ma: "map nombre (members df_sums ?a) = [Some 10, Some 5]"
    "map insee_pop (members df_sums ?a) = [Some 1000, Some 1000]"
    by (simp_all add: members_def df_sums_def metrics_defs)
  have mz: "map insee_pop (members df_sums ?z) = [Some 0, Some 0]"
    by (simp add: members_def df_sums_def metrics_defs)
  have na: "pop_region ?z = None"
    by (simp add: group_def)
  from build_region_metrics_rate[OF c, of cpython_fragment] obtain g where
    g: "build_region_metrics cpython_fragment df_sums = Inr g"
    and p: "\<forall>m\<in>set g.
        let nb_int64 = ''nombre'' \<in> set (int64_columns df_sums);
            pop_int64 = ''insee_pop'' \<in> set (int64_columns df_sums);
            counts = map nombre (members df_sums m);
            pops = map insee_pop (members df_sums m);
            nb = (if nb_int64 then of_int (wrap64 (\<Sum>x\<leftarrow>counts. int_cell x))
                  else float_sum cpython_fragment (map the (filter (\<lambda>x. x \<noteq> None) counts)));
            pop = (if pop_int64 then of_int (wrap64 (\<Sum>x\<leftarrow>pops. int_cell x))
                   else float_sum cpython_fragment (map the (filter (\<lambda>x. x \<noteq> None) pops)));
            python_ints = (nb_int64 \<and> pop_int64 \<and> (\<exists>m'\<in>set g. pop_region m' = None));
            quotient = (if python_ints then float64 cpython_fragment (nb / pop)
                        else float64 cpython_fragment
                               ((if nb_int64 then float64 cpython_fragment nb else nb) /
                                (if pop_int64 then float64 cpython_fragment pop else pop)))
        in nb_region m = nb \<and>
           pop_region m = (if pop = 0 then None else Some pop) \<and>
           taux_region_pour_mille m =
             (if pop = 0 then None else Some (float64 cpython_fragment (1000 * quotient))) \<and>
           (nb_int64 \<and> - (2 ^ 63) \<le> (\<Sum>x\<leftarrow>counts. int_cell x) \<and>
              (\<Sum>x\<leftarrow>counts. int_cell x) < 2 ^ 63 \<longrightarrow>
              nb_region m = of_int (\<Sum>x\<leftarrow>counts. int_cell x)) \<and>
           (pop_int64 \<and> - (2 ^ 63) \<le> (\<Sum>x\<leftarrow>pops. int_cell x) \<and>
              (\<Sum>x\<leftarrow>pops. int_cell x) < 2 ^ 63 \<longrightarrow>
              pop = of_int (\<Sum>x\<leftarrow>pops. int_cell x))"
    by (elim exE conjE)
  from g e have "g = [?a, ?z, ?b]" by simp
  with p
  have all: "\<forall>m\<in>set [?a, ?z, ?b].
        let nb_int64 = ''nombre'' \<in> set (int64_columns df_sums);
            pop_int64 = ''insee_pop'' \<in> set (int64_columns df_sums);
            counts = map nombre (members df_sums m);
            pops = map insee_pop (members df_sums m);
            nb = (if nb_int64 then of_int (wrap64 (\<Sum>x\<leftarrow>counts. int_cell x))
                  else float_sum cpython_fragment (map the (filter (\<lambda>x. x \<noteq> None) counts)));
            pop = (if pop_int64 then of_int (wrap64 (\<Sum>x\<leftarrow>pops. int_cell x))
                   else float_sum cpython_fragment (map the (filter (\<lambda>x. x \<noteq> None) pops)));
            python_ints = (nb_int64 \<and> pop_int64 \<and> (\<exists>m'\<in>set [?a, ?z, ?b]. pop_region m' = None));
            quotient = (if python_ints then float64 cpython_fragment (nb / pop)
                        else float64 cpython_fragment
                               ((if nb_int64 then float64 cpython_fragment nb else nb) /
                                (if pop_int64 then float64 cpython_fragment pop else pop)))
        in nb_region m = nb \<and>
           pop_region m = (if pop = 0 then None else Some pop) \<and>
           taux_region_pour_mille m =
             (if pop = 0 then None else Some (float64 cpython_fragment (1000 * quotient))) \<and>
           (nb_int64 \<and> - (2 ^ 63) \<le> (\<Sum>x\<leftarrow>counts. int_cell x) \<and>
              (\<Sum>x\<leftarrow>counts. int_cell x) < 2 ^ 63 \<longrightarrow>
              nb_region m = of_int (\<Sum>x\<leftarrow>counts. int_cell x)) \<and>
           (pop_int64 \<and> - (2 ^ 63) \<le> (\<Sum>x\<leftarrow>pops. int_cell x) \<and>
              (\<Sum>x\<leftarrow>pops. int_cell x) < 2 ^ 63 \<longrightarrow>
              pop = of_int (\<Sum>x\<leftarrow>pops. int_cell x))"
    by (simp only:)
  have ina: "?a \<in> set [?a, ?z, ?b]" and inz: "?z \<in> set [?a, ?z, ?b]" by simp_all
  from all[rule_format, OF ina]
  have "nb_region ?a = 10 + 5 \<and> pop_region ?a = Some (1000 + 1000) \<and>
      taux_region_pour_mille ?a = Some (round_float64 (1000 * round_float64 (15 / 2000)))"
    unfolding Let_def ma
    by (simp add: i na int_cell_def wrap64_def cpython_fragment_def)
  moreover from all[rule_format, OF inz] have "taux_region_pour_mille ?z = None"
    unfolding Let_def mz by (simp add: i int_cell_def wrap64_def)
  ultimately show ?thesis using e f ma mz by simp
qed

text \<open>The difference within a region, on a table whose regions are in ascending order:
  only the row just before can be the previous row of the same region.\<close>

lemma group_diff_nth:
  assumes "sorted (map fst xs)" and "\<forall>a\<in>dom prev. \<forall>x\<in>set xs. a \<le> fst x" and "i < length xs"
  shows "group_diff L prev xs ! i =
     (if i = 0 then (case prev (fst (xs ! 0)) of None \<Rightarrow> None | Some p \<Rightarrow> float_sub L (snd (xs ! 0)) p)
      else if fst (xs ! (i - 1)) = fst (xs ! i) then float_sub L (snd (xs ! i)) (snd (xs ! (i - 1)))
      else None)"
  using assms
proof (induction xs arbitrary: prev i)
  case Nil
  then show ?case by simp
next
  case (Cons x xs)
  obtain a t where x: "x = (a, t)" by (cases x)
  show ?case
  proof (cases i)
    case 0
    then show ?thesis by (simp add: x float_sub_def split: option.splits)
  next
    case (Suc j)
    with Cons.prems(3) have j: "j < length xs" by simp
    from Cons.prems(1) have s: "sorted (map fst xs)" and le: "\<forall>y\<in>set xs. a \<le> fst y"
      by (simp_all add: x)
    define prev' where "prev' = prev(a \<mapsto> t)"
    have pa: "prev' a = Some t" and po: "\<And>b. b \<noteq> a \<Longrightarrow> prev' b = prev b"
      by (simp_all add: prev'_def)
    have d: "\<forall>b\<in>dom prev'. \<forall>y\<in>set xs. b \<le> fst y"
      using Cons.prems(2) le by (auto simp: prev'_def)
    have unfold: "group_diff L prev (x # xs) ! i = group_diff L prev' xs ! j"
      by (simp add: x Suc prev'_def)
    note IH = Cons.IH[of prev' j, OF s d j]
    show ?thesis
    proof (cases j)
      case 0
      define b where "b = fst (xs ! 0)"
      from j 0 have mem: "xs ! 0 \<in> set xs" by simp
      with le have ab: "a \<le> b" by (simp add: b_def)
      have none: "prev b = None" if "b \<noteq> a"
      proof (rule ccontr)
        assume "prev b \<noteq> None"
        then have "b \<in> dom prev" by auto
        with Cons.prems(2) have "b \<le> fst x" by simp
        with ab that show False by (simp add: x)
      qed
      have "group_diff L prev' xs ! 0 =
            (case prev' b of None \<Rightarrow> None | Some p \<Rightarrow> float_sub L (snd (xs ! 0)) p)"
        using IH 0 by (simp add: b_def)
      also have "\<dots> = (if a = b then float_sub L (snd (xs ! 0)) t else None)"
        using pa po[of b] none by (cases "b = a") auto
      finally show ?thesis
        unfolding unfold using 0 Suc by (simp add: x b_def)
    next
      case (Suc j')
      with IH \<open>i = Suc j\<close> show ?thesis unfolding unfold by (simp add: x)
    qed
  qed
qed

lemma sorted_map_fst_of_pairs:
  "sorted (map (\<lambda>m. (p m, q m)) xs) \<Longrightarrow> sorted (map p xs)"
  by (induction xs) (auto simp: less_eq_prod_def)

lemma sorted_groups_sorted:
  "sorted (map (\<lambda>m. (g_nom_region m, g_annee m)) (sorted_groups L df))"
  unfolding sorted_groups_def by (rule sorted_sort_key)

lemma variations_nth:
  assumes "i < length (sorted_groups L df)"
  shows "variations L df ! i =
     (if i = 0 \<or> g_nom_region (sorted_groups L df ! (i - 1)) \<noteq> g_nom_region (sorted_groups L df ! i)
      then 0
      else fillna0 (float_sub L (taux_region_pour_mille (sorted_groups L df ! i))
                               (taux_region_pour_mille (sorted_groups L df ! (i - 1)))))"
proof -
  define xs where "xs = map (\<lambda>m. (g_nom_region m, taux_region_pour_mille m)) (sorted_groups L df)"
  have s: "sorted (map fst xs)"
    using sorted_map_fst_of_pairs[OF sorted_groups_sorted[of L df]]
    by (simp add: xs_def comp_def)
  have d: "\<forall>a\<in>dom (Map.empty :: ustr \<rightharpoonup> rat option). \<forall>x\<in>set xs. a \<le> fst x" by simp
  have i: "i < length xs" using assms by (simp add: xs_def)
  have "variations L df ! i = fillna0 (group_diff L Map.empty xs ! i)"
    using i by (simp add: variations_def xs_def[symmetric] length_group_diff)
  also have "group_diff L Map.empty xs ! i =
     (if i = 0 then None
      else if fst (xs ! (i - 1)) = fst (xs ! i) then float_sub L (snd (xs ! i)) (snd (xs ! (i - 1)))
      else None)"
    using group_diff_nth[OF s d i] by simp
  finally show ?thesis
    using assms by (auto simp: xs_def fillna0_def)
qed

lemma group_row_inj: "group_row L df k = group_row L df k' \<Longrightarrow> k = k'"
  by (metis group_row_key)

lemma sorted_groups_distinct:
  assumes "one_key_per_region (rows df)"
  shows "distinct (map (\<lambda>m. (g_nom_region m, g_annee m)) (sorted_groups L df))"
proof -
  have "inj_on (group_row L df) (set (group_keys (rows df)))"
    by (rule inj_onI) (rule group_row_inj)
  then have 1: "distinct (sorted_groups L df)"
    unfolding sorted_groups_def by (simp add: distinct_map distinct_group_keys)
  have 2: "inj_on (\<lambda>m. (g_nom_region m, g_annee m)) (set (sorted_groups L df))"
  proof (rule inj_onI)
    fix m m'
    assume m: "m \<in> set (sorted_groups L df)" and m': "m' \<in> set (sorted_groups L df)"
      and e: "(g_nom_region m, g_annee m) = (g_nom_region m', g_annee m')"
    from sorted_groups_member[OF m] obtain k0
      where k0: "k0 \<in> set (group_keys (rows df))" "m = group_row L df k0" by blast
    obtain a b y where "k0 = (a, b, y)" by (cases k0)
    with k0 have k: "(a, b, y) \<in> set (group_keys (rows df))" "m = group_row L df (a, b, y)" by simp_all
    from sorted_groups_member[OF m'] obtain k1
      where k1: "k1 \<in> set (group_keys (rows df))" "m' = group_row L df k1" by blast
    obtain a' b' y' where "k1 = (a', b', y')" by (cases k1)
    with k1 have k': "(a', b', y') \<in> set (group_keys (rows df))" "m' = group_row L df (a', b', y')"
      by simp_all
    have fa: "g_nom_region m = a" "g_annee m = y"
      unfolding k(2) by (simp_all add: group_row_fields)
    have fa': "g_nom_region m' = a'" "g_annee m' = y'"
      unfolding k'(2) by (simp_all add: group_row_fields)
    from e have "g_nom_region m = g_nom_region m'" "g_annee m = g_annee m'" by simp_all
    then have ay: "a' = a" "y' = y" unfolding fa fa' by simp_all
    from k(1) obtain r where r: "r \<in> set (rows df)" "group_key r = Some (a, b, y)"
      unfolding set_group_keys by blast
    from k'(1) obtain r' where r': "r' \<in> set (rows df)" "group_key r' = Some (a', b', y')"
      unfolding set_group_keys by blast
    have key_fields: "nom_region q = Some c \<and> nom_region_norm q = Some d"
      if "group_key q = Some (c, d, z)" for q c d z
      using that by (cases "nom_region q"; cases "nom_region_norm q"; cases "annee q")
        (simp_all add: group_key_def)
    from key_fields[OF r(2)] have f: "nom_region r = Some a" "nom_region_norm r = Some b"
      by blast+
    from key_fields[OF r'(2)] have f': "nom_region r' = Some a'" "nom_region_norm r' = Some b'"
      by blast+
    from assms r(1) r'(1) have "nom_region r = nom_region r' \<longrightarrow>
        nom_region_norm r = nom_region_norm r'"
      unfolding one_key_per_region_def by blast
    moreover have "nom_region r = nom_region r'" unfolding f f' ay by (rule refl)
    ultimately have "nom_region_norm r = nom_region_norm r'" by blast
    then have "Some b = Some b'" unfolding f f' .
    then have bb: "b' = b" by simp
    show "m = m'" unfolding k(2) k'(2) ay bb by (rule refl)
  qed
  from 1 2 show ?thesis by (simp add: distinct_map)
qed

text \<open>
  C2, as stated, fails. In \<open>df_zero_pop\<close> the populations of region \<open>A\<close> sum to zero in
  2021, so the rate of 2021 is null; the variation of 2021 is not the (null) difference
  between that rate and the rate of 2020, but zero.
\<close>

theorem build_region_metrics_variation_counterexample:
  "build_region_metrics cpython_fragment df_zero_pop =
     Inr [group ''A'' ''a'' 2020 10 (Some 1000) (Some 10) 0,
          group ''A'' ''a'' 2021 5 None None 0,
          group ''A'' ''a'' 2022 20 (Some 1000) (Some 20) 0] \<and>
   Some (variation_region (group ''A'' ''a'' 2021 5 None None 0)) \<noteq>
     minus_null (taux_region_pour_mille (group ''A'' ''a'' 2021 5 None None 0))
                (taux_region_pour_mille (group ''A'' ''a'' 2020 10 (Some 1000) (Some 10) 0))"
proof -
  have "build_region_metrics cpython_fragment df_zero_pop =
     Inr [group ''A'' ''a'' 2020 10 (Some 1000) (Some 10) 0,
          group ''A'' ''a'' 2021 5 None None 0,
          group ''A'' ''a'' 2022 20 (Some 1000) (Some 20) 0]"
    by (simp add: df_zero_pop_def metrics_defs float_defs)
  then show ?thesis by (simp add: group_def minus_null_def)
qed

text \<open>A second way in which the claim fails: when a region name comes with two normalized
  keys in one year, the two groups are neighbours in the sorted table, and the variation
  of the second is a difference within the year 2020.\<close>

lemma build_region_metrics_two_keys:
  "build_region_metrics cpython_fragment df_two_keys =
     Inr [group ''A'' ''a'' 2020 10 (Some 1000) (Some 10) 0,
          group ''A'' ''b'' 2020 30 (Some 1000) (Some 30) 20]"
  by (simp add: df_two_keys_def metrics_defs float_defs)

text \<open>
  C2, amended. For every table that has the required columns, the groups that
  \<open>build_region_metrics\<close> returns are sorted by region name and then year. The first group
  of a region has variation exactly zero. Any other group has as variation its rate
  minus the rate of the group just before it (a \<open>float64\<close> subtraction) when both rates
  are not null, and zero when one of them is null. When every region name of the table comes with one
  normalized key, the group just before is the preceding observed year of the region:
  its year is strictly smaller.
\<close>

theorem build_region_metrics_variation:
  assumes "set required \<subseteq> set (columns df)" and "build_region_metrics L df = Inr g"
  shows "sorted (map (\<lambda>m. (g_nom_region m, g_annee m)) g) \<and>
     (\<forall>i<length g.
        (i = 0 \<or> g_nom_region (g ! (i - 1)) \<noteq> g_nom_region (g ! i) \<longrightarrow>
           variation_region (g ! i) = 0) \<and>
        (0 < i \<and> g_nom_region (g ! (i - 1)) = g_nom_region (g ! i) \<longrightarrow>
           (\<forall>x y. taux_region_pour_mille (g ! i) = Some x \<and>
                  taux_region_pour_mille (g ! (i - 1)) = Some y \<longrightarrow>
                  variation_region (g ! i) = float64 L (x - y)) \<and>
           (taux_region_pour_mille (g ! i) = None \<or> taux_region_pour_mille (g ! (i - 1)) = None \<longrightarrow>
              variation_region (g ! i) = 0) \<and>
           (one_key_per_region (rows df) \<longrightarrow> g_annee (g ! (i - 1)) < g_annee (g ! i))))"
proof -
  let ?s = "sorted_groups L df"
  let ?k = "\<lambda>m. (g_nom_region m, g_annee m)"
  note nth = build_region_metrics_nth[OF assms]
  have keys: "map ?k g = map ?k ?s"
    using nth by (intro nth_equalityI) simp_all
  have srt: "sorted (map ?k g)"
    unfolding keys by (rule sorted_groups_sorted)
  have step: "(i = 0 \<or> g_nom_region (g ! (i - 1)) \<noteq> g_nom_region (g ! i) \<longrightarrow>
           variation_region (g ! i) = 0) \<and>
        (0 < i \<and> g_nom_region (g ! (i - 1)) = g_nom_region (g ! i) \<longrightarrow>
           (\<forall>x y. taux_region_pour_mille (g ! i) = Some x \<and>
                  taux_region_pour_mille (g ! (i - 1)) = Some y \<longrightarrow>
                  variation_region (g ! i) = float64 L (x - y)) \<and>
           (taux_region_pour_mille (g ! i) = None \<or> taux_region_pour_mille (g ! (i - 1)) = None \<longrightarrow>
              variation_region (g ! i) = 0) \<and>
           (one_key_per_region (rows df) \<longrightarrow> g_annee (g ! (i - 1)) < g_annee (g ! i)))"
    if i: "i < length g" for i
  proof -
    define p where "p = i - 1"
    from i nth(1) have i0: "i < length ?s" by simp
    from i have i1: "p < length g" by (simp add: p_def)
    have gi: "g ! i = (?s ! i)\<lparr>variation_region := variations L df ! i\<rparr>"
      using nth(2)[OF i] .
    have gp: "g ! p = (?s ! p)\<lparr>variation_region := variations L df ! p\<rparr>"
      using nth(2)[OF i1] .
    have v: "variation_region (g ! i) =
       (if i = 0 \<or> g_nom_region (g ! p) \<noteq> g_nom_region (g ! i) then 0
        else fillna0 (float_sub L (taux_region_pour_mille (g ! i))
                                   (taux_region_pour_mille (g ! p))))"
      unfolding gi gp using variations_nth[OF i0] by (simp add: p_def)
    have strict: "g_annee (g ! p) < g_annee (g ! i)"
      if "0 < i" "g_nom_region (g ! p) = g_nom_region (g ! i)" "one_key_per_region (rows df)"
    proof -
      from that(1) have lt: "p < i" by (simp add: p_def)
      have "distinct (map ?k g)"
        unfolding keys using that(3) by (rule sorted_groups_distinct)
      with lt i have ne: "map ?k g ! p \<noteq> map ?k g ! i"
        by (simp add: nth_eq_iff_index_eq del: nth_map)
      from srt lt i have "map ?k g ! p \<le> map ?k g ! i"
        by (intro sorted_nth_mono) simp_all
      with ne have "map ?k g ! p < map ?k g ! i" by simp
      with i i1 that(2) show ?thesis by (simp add: less_prod_def)
    qed
    have a: "i = 0 \<or> g_nom_region (g ! p) \<noteq> g_nom_region (g ! i) \<longrightarrow> variation_region (g ! i) = 0"
      using v by simp
    have b: "\<forall>x y. taux_region_pour_mille (g ! i) = Some x \<and>
                  taux_region_pour_mille (g ! p) = Some y \<longrightarrow> variation_region (g ! i) = float64 L (x - y)"
      if "0 < i" "g_nom_region (g ! p) = g_nom_region (g ! i)"
      using v that by (simp add: fillna0_def float_sub_def)
    have c: "taux_region_pour_mille (g ! i) = None \<or> taux_region_pour_mille (g ! p) = None \<longrightarrow>
              variation_region (g ! i) = 0"
      if "0 < i" "g_nom_region (g ! p) = g_nom_region (g ! i)"
      using v that by (auto simp: fillna0_def float_sub_def split: option.splits)
    from a b c strict show ?thesis unfolding p_def by blast
  qed
  from srt step show ?thesis by blast
qed

theorem build_region_metrics_variation_witness:
  "build_region_metrics cpython_fragment df_spec =
     Inr [group ''A'' ''a'' 2020 10 (Some 1000) (Some 10) 0,
          group ''A'' ''a'' 2021 20 (Some 1000) (Some 20) 10] \<and>
   variation_region (group ''A'' ''a'' 2020 10 (Some 1000) (Some 10) 0) = 0 \<and>
   variation_region (group ''A'' ''a'' 2021 20 (Some 1000) (Some 20) 10) =
     round_float64 (20 - 10) \<and>
   g_annee (group ''A'' ''a'' 2020 10 (Some 1000) (Some 10) 0) <
     g_annee (group ''A'' ''a'' 2021 20 (Some 1000) (Some 20) 10)"
proof -
  let ?g = "[group ''A'' ''a'' 2020 10 (Some 1000) (Some 10) 0,
             group ''A'' ''a'' 2021 20 (Some 1000) (Some 20) 10]"
  have c: "set required \<subseteq> set (columns df_spec)"
    by (simp add: df_spec_def float64_table_def)
  have e: "build_region_metrics cpython_fragment df_spec = Inr ?g"
    by (simp add: df_spec_def metrics_defs float_defs)
  have k: "one_key_per_region (rows df_spec)"
    by (simp add: one_key_per_region_def df_spec_def float64_table_def table_row_def ascii_def)
  have t: "taux_region_pour_mille (?g ! 1) = Some 20" "taux_region_pour_mille (?g ! (1 - 1)) = Some 10"
    "g_nom_region (?g ! (1 - 1)) = g_nom_region (?g ! 1)"
    by (simp_all add: group_def)
  from build_region_metrics_variation[OF c e]
  have a: "\<forall>i<length ?g.
        (i = 0 \<or> g_nom_region (?g ! (i - 1)) \<noteq> g_nom_region (?g ! i) \<longrightarrow>
           variation_region (?g ! i) = 0) \<and>
        (0 < i \<and> g_nom_region (?g ! (i - 1)) = g_nom_region (?g ! i) \<longrightarrow>
           (\<forall>x y. taux_region_pour_mille (?g ! i) = Some x \<and>
                  taux_region_pour_mille (?g ! (i - 1)) = Some y \<longrightarrow>
                  variation_region (?g ! i) = float64 cpython_fragment (x - y)) \<and>
           (taux_region_pour_mille (?g ! i) = None \<or> taux_region_pour_mille (?g ! (i - 1)) = None \<longrightarrow>
              variation_region (?g ! i) = 0) \<and>
           (one_key_per_region (rows df_spec) \<longrightarrow> g_annee (?g ! (i - 1)) < g_annee (?g ! i)))"
    by blast
  from a[rule_format, of 0] have 0: "variation_region (?g ! 0) = 0" by simp
  from a[rule_format, of 1] t k have 1: "variation_region (?g ! 1) = round_float64 (20 - 10)"
    "g_annee (?g ! (1 - 1)) < g_annee (?g ! 1)" by (simp_all add: cpython_fragment_def)
  from e 0 1 show ?thesis by simp
qed

subsection \<open>\<open>compute_matching_diagnostics\<close>\<close>

lemmas diagnostics_defs =
  compute_matching_diagnostics_def region_norm_of_def iter_values_def dict_get_def truthy_def
  annotated_feature_def group_def ascii_def

lemma region_norm_of_text:
  "region_norm_text feat = Some s \<Longrightarrow> region_norm_of feat = Inr (JStr s)"
  by (auto simp: region_norm_text_def region_norm_of_def split: json.splits)

lemma region_norms_text:
  "\<forall>f\<in>set fs. region_norm_text f \<noteq> None \<Longrightarrow>
   region_norms fs = Inr (map (\<lambda>f. JStr (the (region_norm_text f))) fs)"
proof (induction fs)
  case Nil
  then show ?case by simp
next
  case (Cons f fs)
  then obtain s where s: "region_norm_text f = Some s" by auto
  from Cons have "region_norms fs = Inr (map (\<lambda>f. JStr (the (region_norm_text f))) fs)" by simp
  with region_norm_of_text[OF s] s show ?case by simp
qed

lemma string_keys_text:
  "string_keys (filter truthy (map (\<lambda>f. JStr (h f)) fs)) = Inr (filter (\<lambda>s. s \<noteq> []) (map h fs))"
  by (induction fs) (simp_all add: truthy_def)

lemma geo_keys_set:
  assumes "\<forall>f\<in>set fs. region_norm_text f \<noteq> None"
  shows "set (filter (\<lambda>s. s \<noteq> []) (map (\<lambda>f. the (region_norm_text f)) fs)) =
         {s. s \<noteq> [] \<and> Some s \<in> region_norm_text ` set fs}"
proof -
  have "the (region_norm_text f) = s \<longleftrightarrow> region_norm_text f = Some s" if "f \<in> set fs" for f s
    using assms that by (cases "region_norm_text f") auto
  then show ?thesis by (auto simp: image_iff) metis+
qed

lemma distinct_singleton:
  assumes "distinct xs" and "set xs = {a}"
  shows "xs = [a]"
proof (cases xs)
  case Nil
  with assms(2) show ?thesis by simp
next
  case (Cons x ys)
  with assms(2) have x: "x = a" by auto
  from Cons assms x have n: "a \<notin> set ys" and sub: "set ys \<subseteq> {a}" by auto
  have "ys = []"
  proof (cases ys)
    case Nil
    then show ?thesis .
  next
    case (Cons y zs)
    then have "y \<in> set ys" by simp
    with sub have "y = a" by auto
    with \<open>y \<in> set ys\<close> n show ?thesis by simp
  qed
  with Cons x show ?thesis by simp
qed

text \<open>
  C10, as stated, fails. The only group of \<open>g_blank\<close> has the empty string as normalized
  key: the table has no non-empty key, but \<open>n_regions_data\<close> is 1 (and the empty key is
  listed as missing in the collection). Empty keys are removed on the side of the
  collection only.
\<close>

theorem compute_matching_diagnostics_counterexample:
  "compute_matching_diagnostics g_blank (JObj []) =
     Inr \<lparr> n_regions_data = 1, n_regions_geo = 0, missing_in_geo = [[]], missing_in_data = [] \<rparr> \<and>
   n_regions_data \<lparr> n_regions_data = 1, n_regions_geo = 0, missing_in_geo = [[]],
                    missing_in_data = [] \<rparr> \<noteq> distinct_nonempty_keys g_blank"
proof -
  have s: "{r. r = [] \<and> r \<in> {[]}} = {[] :: ustr}" by auto
  have "compute_matching_diagnostics g_blank (JObj []) =
     Inr \<lparr> n_regions_data = 1, n_regions_geo = 0, missing_in_geo = [[]], missing_in_data = [] \<rparr>"
    by (simp add: g_blank_def diagnostics_defs)
  moreover have "distinct_nonempty_keys g_blank = 0"
    by (simp add: distinct_nonempty_keys_def g_blank_def group_def ascii_def)
  ultimately show ?thesis by simp
qed

text \<open>
  C10, amended. For every metrics table and every feature collection whose features
  carry a string \<open>region_norm\<close> (or none), empty ones included,
  \<open>compute_matching_diagnostics\<close> returns: the number of distinct normalized keys of the
  table (the empty key counts); the number of distinct non-empty keys of the collection;
  the keys of the table that are not keys of the collection, and the keys of the
  collection that are not keys of the table, each list sorted and without repetition.
\<close>

theorem compute_matching_diagnostics_result:
  assumes "dict_get g (ascii ''features'') (JArr []) = JArr fs"
    and "\<forall>f\<in>set fs. region_norm_text f \<noteq> None"
  shows "\<exists>d. compute_matching_diagnostics g_y (JObj g) = Inr d \<and>
     n_regions_data d = card (set (map g_nom_region_norm g_y)) \<and>
     n_regions_geo d = card {s. s \<noteq> [] \<and> Some s \<in> region_norm_text ` set fs} \<and>
     sorted (missing_in_geo d) \<and> distinct (missing_in_geo d) \<and>
     set (missing_in_geo d) =
       set (map g_nom_region_norm g_y) - {s. s \<noteq> [] \<and> Some s \<in> region_norm_text ` set fs} \<and>
     sorted (missing_in_data d) \<and> distinct (missing_in_data d) \<and>
     set (missing_in_data d) =
       {s. s \<noteq> [] \<and> Some s \<in> region_norm_text ` set fs} - set (map g_nom_region_norm g_y)"
proof -
  define ks where "ks = filter (\<lambda>s. s \<noteq> []) (map (\<lambda>f. the (region_norm_text f)) fs)"
  define geo where "geo = set ks"
  define data where "data = set (map g_nom_region_norm g_y)"
  define d where "d = \<lparr> n_regions_data = card data, n_regions_geo = card geo,
      missing_in_geo = sorted_list_of_set {r \<in> data. r \<notin> geo},
      missing_in_data = sorted_list_of_set {r \<in> geo. r \<notin> data} \<rparr>"
  have k: "string_keys (filter truthy (map (\<lambda>f. JStr (the (region_norm_text f))) fs)) = Inr ks"
    unfolding ks_def by (rule string_keys_text)
  have res: "compute_matching_diagnostics g_y (JObj g) = Inr d"
    by (simp add: compute_matching_diagnostics_def assms(1) iter_values_def
        region_norms_text[OF assms(2)] k Let_def d_def geo_def data_def)
  have geo: "geo = {s. s \<noteq> [] \<and> Some s \<in> region_norm_text ` set fs}"
    unfolding geo_def ks_def using assms(2) by (rule geo_keys_set)
  have fin: "finite {r \<in> data. r \<notin> geo}" "finite {r \<in> geo. r \<notin> data}"
    by (simp_all add: data_def geo_def)
  have "n_regions_data d = card data" "n_regions_geo d = card geo"
    "sorted (missing_in_geo d)" "distinct (missing_in_geo d)"
    "set (missing_in_geo d) = data - geo"
    "sorted (missing_in_data d)" "distinct (missing_in_data d)"
    "set (missing_in_data d) = geo - data"
    using fin by (auto simp: d_def)
  with res show ?thesis unfolding geo[symmetric] data_def[symmetric] by blast
qed

theorem compute_matching_diagnostics_result_witness:
  "compute_matching_diagnostics g_two geo_two =
     Inr \<lparr> n_regions_data = 2, n_regions_geo = 2,
           missing_in_geo = [ascii ''normandie''], missing_in_data = [ascii ''paca''] \<rparr> \<and>
   compute_matching_diagnostics [] (JObj []) =
     Inr \<lparr> n_regions_data = 0, n_regions_geo = 0, missing_in_geo = [], missing_in_data = [] \<rparr>"
proof -
  let ?fs = "[annotated_feature ''bretagne'', annotated_feature ''paca'']"
  have 1: "dict_get [(ascii ''features'', JArr ?fs)] (ascii ''features'') (JArr []) = JArr ?fs"
    by (simp add: dict_get_def)
  have 2: "\<forall>f\<in>set ?fs. region_norm_text f \<noteq> None"
    by (simp add: region_norm_text_def annotated_feature_def dict_get_def)
  have 3: "dict_get [] (ascii ''features'') (JArr []) = JArr []"
    by (simp add: dict_get_def)
  have 4: "\<forall>f\<in>set ([] :: json list). region_norm_text f \<noteq> None" by simp
  have t: "region_norm_text ` set ?fs = {Some (ascii ''bretagne''), Some (ascii ''paca'')}"
    by (simp add: region_norm_text_def annotated_feature_def dict_get_def)
  have geo: "{s. s \<noteq> [] \<and> Some s \<in> region_norm_text ` set ?fs} = {ascii ''bretagne'', ascii ''paca''}"
    unfolding t by (auto simp: ascii_def)
  have data: "set (map g_nom_region_norm g_two) = {ascii ''bretagne'', ascii ''normandie''}"
    by (simp add: g_two_def group_def)
  have dg: "{ascii ''bretagne'', ascii ''normandie''} - {ascii ''bretagne'', ascii ''paca''} =
            {ascii ''normandie''}"
    and gd: "{ascii ''bretagne'', ascii ''paca''} - {ascii ''bretagne'', ascii ''normandie''} =
            {ascii ''paca''}"
    and c: "card {ascii ''bretagne'', ascii ''normandie''} = 2"
      "card {ascii ''bretagne'', ascii ''paca''} = 2"
    by (auto simp: ascii_def)
  from compute_matching_diagnostics_result[OF 1 2, of g_two]
  obtain d where d: "compute_matching_diagnostics g_two geo_two = Inr d"
    "n_regions_data d = 2" "n_regions_geo d = 2"
    "sorted (missing_in_geo d)" "distinct (missing_in_geo d)"
    "set (missing_in_geo d) = {ascii ''normandie''}"
    "sorted (missing_in_data d)" "distinct (missing_in_data d)"
    "set (missing_in_data d) = {ascii ''paca''}"
    unfolding geo data dg gd c geo_two_def by blast
  from d(5,6) have mg: "missing_in_geo d = [ascii ''normandie'']"
    by (rule distinct_singleton)
  from d(8,9) have md: "missing_in_data d = [ascii ''paca'']"
    by (rule distinct_singleton)
  have a: "d = \<lparr> n_regions_data = 2, n_regions_geo = 2,
           missing_in_geo = [ascii ''normandie''], missing_in_data = [ascii ''paca''] \<rparr>"
    using d(2,3) mg md by (cases d) simp
  from compute_matching_diagnostics_result[OF 3 4, of "[]"]
  obtain e where e: "compute_matching_diagnostics [] (JObj []) = Inr e"
    "n_regions_data e = 0" "n_regions_geo e = 0" "set (missing_in_geo e) = {}"
    "set (missing_in_data e) = {}"
    by auto
  then have b: "e = \<lparr> n_regions_data = 0, n_regions_geo = 0, missing_in_geo = [],
                      missing_in_data = [] \<rparr>"
    by (cases e) simp
  from d(1) a e(1) b show ?thesis by simp
qed

end
